theory Spec2Isabelle
  imports Complex_Main "HOL-Library.Word"
begin

unbundle bit_operations_syntax

section \<open>Mode tables (Streams.cpp, namespace streams)\<close>

text \<open>
  Modelled from the spec: the enums \<open>ProcessorFunction\<close> and \<open>MonitorMode\<close> are declared in
  the engine's headers, which are not among the sources. The enumerators are the ones the
  tables of Streams.cpp name, numbered from 0 in the order in which the spec's data model
  lists them (Envelope, Vactrol, Follower, Compressor, FilterController, LorenzGenerator;
  ExciteIn, VcaCv, AudioIn, Output).
\<close>

datatype ProcessorFunction =
    PROCESSOR_FUNCTION_ENVELOPE
  | PROCESSOR_FUNCTION_VACTROL
  | PROCESSOR_FUNCTION_FOLLOWER
  | PROCESSOR_FUNCTION_COMPRESSOR
  | PROCESSOR_FUNCTION_FILTER_CONTROLLER
  | PROCESSOR_FUNCTION_LORENZ_GENERATOR

datatype MonitorMode =
    MONITOR_MODE_EXCITE_IN
  | MONITOR_MODE_VCA_CV
  | MONITOR_MODE_AUDIO_IN
  | MONITOR_MODE_OUTPUT

text \<open>Modelled from the spec: the integer value of each enumerator of the absent enums,
  counted from 0 in the order given above.\<close>

fun ProcessorFunction_value :: "ProcessorFunction \<Rightarrow> int" where
  "ProcessorFunction_value PROCESSOR_FUNCTION_ENVELOPE = 0"
| "ProcessorFunction_value PROCESSOR_FUNCTION_VACTROL = 1"
| "ProcessorFunction_value PROCESSOR_FUNCTION_FOLLOWER = 2"
| "ProcessorFunction_value PROCESSOR_FUNCTION_COMPRESSOR = 3"
| "ProcessorFunction_value PROCESSOR_FUNCTION_FILTER_CONTROLLER = 4"
| "ProcessorFunction_value PROCESSOR_FUNCTION_LORENZ_GENERATOR = 5"

fun MonitorMode_value :: "MonitorMode \<Rightarrow> int" where
  "MonitorMode_value MONITOR_MODE_EXCITE_IN = 0"
| "MonitorMode_value MONITOR_MODE_VCA_CV = 1"
| "MonitorMode_value MONITOR_MODE_AUDIO_IN = 2"
| "MonitorMode_value MONITOR_MODE_OUTPUT = 3"

text \<open>\<open>struct StreamsChannelMode\<close>; the field \<open>function\<close> is spelled \<open>mode_function\<close>
  here because \<open>function\<close> is a reserved word.\<close>

record StreamsChannelMode =
  mode_function :: ProcessorFunction
  mode_alternate :: bool
  mode_label :: string

definition kNumChannelModes :: int where
  "kNumChannelModes = 10"

definition kChannelModeTable :: "StreamsChannelMode list" where
  "kChannelModeTable =
    [\<lparr>mode_function = PROCESSOR_FUNCTION_ENVELOPE, mode_alternate = False, mode_label = ''Envelope''\<rparr>,
     \<lparr>mode_function = PROCESSOR_FUNCTION_VACTROL, mode_alternate = False, mode_label = ''Vactrol''\<rparr>,
     \<lparr>mode_function = PROCESSOR_FUNCTION_FOLLOWER, mode_alternate = False, mode_label = ''Follower''\<rparr>,
     \<lparr>mode_function = PROCESSOR_FUNCTION_COMPRESSOR, mode_alternate = False, mode_label = ''Compressor''\<rparr>,
     \<lparr>mode_function = PROCESSOR_FUNCTION_ENVELOPE, mode_alternate = True, mode_label = ''AR envelope''\<rparr>,
     \<lparr>mode_function = PROCESSOR_FUNCTION_VACTROL, mode_alternate = True, mode_label = ''Plucked vactrol''\<rparr>,
     \<lparr>mode_function = PROCESSOR_FUNCTION_FOLLOWER, mode_alternate = True, mode_label = ''Cutoff controller''\<rparr>,
     \<lparr>mode_function = PROCESSOR_FUNCTION_COMPRESSOR, mode_alternate = True, mode_label = ''Slow compressor''\<rparr>,
     \<lparr>mode_function = PROCESSOR_FUNCTION_FILTER_CONTROLLER, mode_alternate = True,
      mode_label = ''Direct VCF controller''\<rparr>,
     \<lparr>mode_function = PROCESSOR_FUNCTION_LORENZ_GENERATOR, mode_alternate = False,
      mode_label = ''Lorenz generator''\<rparr>]"

text \<open>\<open>struct StreamsMonitorMode\<close>.\<close>

record StreamsMonitorMode =
  mode :: MonitorMode
  monitor_label :: string

definition kNumMonitorModes :: int where
  "kNumMonitorModes = 4"

definition kMonitorModeTable :: "StreamsMonitorMode list" where
  "kMonitorModeTable =
    [\<lparr>mode = MONITOR_MODE_EXCITE_IN, monitor_label = ''Excite''\<rparr>,
     \<lparr>mode = MONITOR_MODE_VCA_CV, monitor_label = ''Level''\<rparr>,
     \<lparr>mode = MONITOR_MODE_AUDIO_IN, monitor_label = ''In''\<rparr>,
     \<lparr>mode = MONITOR_MODE_OUTPUT, monitor_label = ''Out''\<rparr>]"

section \<open>Errors\<close>

text \<open>
  The module reports no error of its own. The one failure the model makes explicit is an
  index outside an array, where the C++ has undefined behaviour: every indexed access of
  the source is a checked access here, and \<open>Inl OutOfBounds\<close> stands for the access that
  the compiled program would perform outside the array.
\<close>

datatype error = OutOfBounds

definition table_at :: "'a list \<Rightarrow> int \<Rightarrow> error + 'a" where
  "table_at xs i = (if 0 \<le> i \<and> i < int (length xs) then Inr (xs ! nat i) else Inl OutOfBounds)"

section \<open>Settings and the per-voice engine\<close>

text \<open>
  Modelled from the spec: \<open>streams::UiSettings\<close> is declared in the engine's headers, which
  are not among the sources. Its fields are the six of the spec's Settings: \<open>function[2]\<close>,
  \<open>alternate[2]\<close>, \<open>monitor_mode\<close>, \<open>linked\<close>. Streams.cpp stores integers into each of them
  and reads integers back (\<open>json_integer_value\<close>, \<open>json_integer\<close>, \<open>linked ^= 1\<close>), so each
  field holds an unsigned machine integer; its width is not visible and stays a type
  parameter (\<open>'w word\<close>). The two-element arrays are pairs, indexed by \<open>array2_get\<close> and
  \<open>array2_set\<close>. The field \<open>function\<close> is spelled \<open>func\<close> (\<open>function\<close> is a reserved word).
\<close>

record 'a UiSettings =
  func :: "'a \<times> 'a"
  alternate :: "'a \<times> 'a"
  monitor_mode :: 'a
  linked :: 'a

definition array2_get :: "'a \<times> 'a \<Rightarrow> int \<Rightarrow> error + 'a" where
  "array2_get a i = (if i = 0 then Inr (fst a) else if i = 1 then Inr (snd a) else Inl OutOfBounds)"

definition array2_set :: "'a \<times> 'a \<Rightarrow> int \<Rightarrow> 'a \<Rightarrow> error + 'a \<times> 'a" where
  "array2_set a i v =
    (if i = 0 then Inr (v, snd a) else if i = 1 then Inr (fst a, v) else Inl OutOfBounds)"

text \<open>\<open>UiSettings settings = {}\<close>: every field zero.\<close>

definition UiSettings_zero :: "'w::len word UiSettings" where
  "UiSettings_zero = \<lparr>func = (0, 0), alternate = (0, 0), monitor_mode = 0, linked = 0\<rparr>"

text \<open>
  Modelled from the spec: \<open>streams::StreamsEngine\<close> is defined in Streams/streams.hpp, which
  is not among the sources. The spec's contract of the per-voice engine gives
  \<open>read_settings\<close>/\<open>apply_settings\<close> as a get/set pair on the engine's Settings
  (\<open>ui_settings\<close>, \<open>ApplySettings\<close>) and \<open>sync_from\<close> (\<open>SyncUI\<close>) as copying the Settings and the
  continuous signal-processing state of another voice. The engine is a record of its
  Settings and of the rest of its state, of an arbitrary type \<open>'d\<close>. The operations the
  spec leaves opaque (\<open>Reset\<close>, \<open>SetSampleRate\<close>, \<open>Randomize\<close>, \<open>Process\<close>) are parameters of
  the definitions that call them.
\<close>

record ('a, 'd) StreamsEngine =
  settings :: "'a UiSettings"
  dsp :: 'd

text \<open>Modelled from the spec: \<open>ui_settings()\<close> of the absent engine is the spec's
  \<open>read_settings\<close>, the engine's current Settings.\<close>

definition ui_settings :: "('a, 'd) StreamsEngine \<Rightarrow> 'a UiSettings" where
  "ui_settings e = settings e"

text \<open>Modelled from the spec: \<open>ApplySettings\<close> of the absent engine is the spec's
  \<open>apply_settings\<close>, the setter of the get/set pair: the engine then holds the Settings given.\<close>

definition ApplySettings :: "'a UiSettings \<Rightarrow> ('a, 'd) StreamsEngine \<Rightarrow> ('a, 'd) StreamsEngine" where
  "ApplySettings s e = e\<lparr>settings := s\<rparr>"

text \<open>Modelled from the spec: \<open>SyncUI\<close> of the absent engine is the spec's \<open>sync_from\<close>: the
  engine takes the Settings and the continuous signal-processing state of the other voice.\<close>

definition SyncUI :: "('a, 'd) StreamsEngine \<Rightarrow> ('a, 'd) StreamsEngine \<Rightarrow> ('a, 'd) StreamsEngine" where
  "SyncUI other e = e\<lparr>settings := settings other, dsp := dsp other\<rparr>"

section \<open>The module's parameters, ports and lights (the enums of struct Streams)\<close>

datatype ParamIds =
    CH1_SHAPE_PARAM | CH1_MOD_PARAM | CH1_LEVEL_MOD_PARAM | CH1_RESPONSE_PARAM
  | CH2_SHAPE_PARAM | CH2_MOD_PARAM | CH2_LEVEL_MOD_PARAM | CH2_RESPONSE_PARAM
  | CH1_FUNCTION_BUTTON_PARAM | CH2_FUNCTION_BUTTON_PARAM | METERING_BUTTON_PARAM

datatype InputIds =
    CH1_EXCITE_INPUT | CH1_SIGNAL_INPUT | CH1_LEVEL_INPUT
  | CH2_EXCITE_INPUT | CH2_SIGNAL_INPUT | CH2_LEVEL_INPUT

datatype OutputIds = CH1_SIGNAL_OUTPUT | CH2_SIGNAL_OUTPUT

datatype LightIds =
    CH1_LIGHT_1_G | CH1_LIGHT_1_R | CH1_LIGHT_2_G | CH1_LIGHT_2_R
  | CH1_LIGHT_3_G | CH1_LIGHT_3_R | CH1_LIGHT_4_G | CH1_LIGHT_4_R
  | CH2_LIGHT_1_G | CH2_LIGHT_1_R | CH2_LIGHT_2_G | CH2_LIGHT_2_R
  | CH2_LIGHT_3_G | CH2_LIGHT_3_R | CH2_LIGHT_4_G | CH2_LIGHT_4_R

text \<open>The value of each enumerator of \<open>LightIds\<close>, which indexes \<open>brightness_\<close> and \<open>lights\<close>.\<close>

fun LightIds_value :: "LightIds \<Rightarrow> nat" where
  "LightIds_value CH1_LIGHT_1_G = 0"
| "LightIds_value CH1_LIGHT_1_R = 1"
| "LightIds_value CH1_LIGHT_2_G = 2"
| "LightIds_value CH1_LIGHT_2_R = 3"
| "LightIds_value CH1_LIGHT_3_G = 4"
| "LightIds_value CH1_LIGHT_3_R = 5"
| "LightIds_value CH1_LIGHT_4_G = 6"
| "LightIds_value CH1_LIGHT_4_R = 7"
| "LightIds_value CH2_LIGHT_1_G = 8"
| "LightIds_value CH2_LIGHT_1_R = 9"
| "LightIds_value CH2_LIGHT_2_G = 10"
| "LightIds_value CH2_LIGHT_2_R = 11"
| "LightIds_value CH2_LIGHT_3_G = 12"
| "LightIds_value CH2_LIGHT_3_R = 13"
| "LightIds_value CH2_LIGHT_4_G = 14"
| "LightIds_value CH2_LIGHT_4_R = 15"

section \<open>The module\<close>

definition kNumEngines :: nat where
  "kNumEngines = 16"

definition NUM_LIGHTS :: nat where
  "NUM_LIGHTS = 16"

text \<open>
  \<open>struct Streams\<close>: the members \<open>engine_\<close>, \<open>brightness_\<close> and \<open>prev_num_channels_\<close> (a
  name may not end in an underscore here), and what the module writes in the host's
  \<open>lights\<close> and \<open>outputs\<close>. The arrays have fixed sizes: they are functions of the index, and
  every access checks the index against the declared size. A \<open>float\<close> is a real number.
\<close>

record ('a, 'd) Streams =
  engine :: "nat \<Rightarrow> ('a, 'd) StreamsEngine"
  brightness :: "nat \<Rightarrow> nat \<Rightarrow> real"
  prev_num_channels :: int
  lights :: "nat \<Rightarrow> real"
  output_voltages :: "OutputIds \<Rightarrow> int \<Rightarrow> real"
  output_channels :: "OutputIds \<Rightarrow> int"

text \<open>The loop \<open>for (c = 0; c < kNumEngines; c++) engine_[c].ApplySettings(settings)\<close>.\<close>

definition apply_to_engines ::
  "(('a, 'd) StreamsEngine \<Rightarrow> ('a, 'd) StreamsEngine) \<Rightarrow> ('a, 'd) Streams \<Rightarrow> ('a, 'd) Streams" where
  "apply_to_engines f st =
    st\<lparr>engine := fold (\<lambda>c es. es(c := f (es c))) [0..<kNumEngines] (engine st)\<rparr>"

subsection \<open>Saving and loading\<close>

text \<open>
  A JSON value of the Jansson library is an integer or something else;
  \<open>json_integer_value\<close> of something else is 0. An object maps keys to values, and
  \<open>json_object_get\<close> is the lookup (a null pointer for an absent key).
\<close>

datatype json = JSON_INTEGER int | JSON_OTHER

type_synonym json_object = "string \<rightharpoonup> json"

fun json_integer_value :: "json \<Rightarrow> int" where
  "json_integer_value (JSON_INTEGER v) = v"
| "json_integer_value JSON_OTHER = 0"

definition settings_to_json :: "'w::len word UiSettings \<Rightarrow> json_object" where
  "settings_to_json s =
    [''function1'' \<mapsto> JSON_INTEGER (uint (fst (func s))),
     ''function2'' \<mapsto> JSON_INTEGER (uint (snd (func s))),
     ''alternate1'' \<mapsto> JSON_INTEGER (uint (fst (alternate s))),
     ''alternate2'' \<mapsto> JSON_INTEGER (uint (snd (alternate s))),
     ''monitor_mode'' \<mapsto> JSON_INTEGER (uint (monitor_mode s)),
     ''linked'' \<mapsto> JSON_INTEGER (uint (linked s))]"

definition dataToJson :: "('w::len word, 'd) Streams \<Rightarrow> json_object" where
  "dataToJson st = settings_to_json (ui_settings (engine st 0))"

text \<open>The first half of \<open>dataFromJson\<close>: the settings read from the object.\<close>

definition load_field :: "json_object \<Rightarrow> string \<Rightarrow> 'w::len word \<Rightarrow> 'w word" where
  "load_field root_j key dflt =
    (case root_j key of None \<Rightarrow> dflt | Some j \<Rightarrow> word_of_int (json_integer_value j))"

definition settings_from_json :: "json_object \<Rightarrow> 'w::len word UiSettings" where
  "settings_from_json root_j =
    (let s0 = UiSettings_zero;
         s1 = s0\<lparr>func := (load_field root_j ''function1'' (fst (func s0)), snd (func s0))\<rparr>;
         s2 = s1\<lparr>func := (fst (func s1), load_field root_j ''function2'' (snd (func s1)))\<rparr>;
         s3 = s2\<lparr>alternate := (load_field root_j ''alternate1'' (fst (alternate s2)), snd (alternate s2))\<rparr>;
         s4 = s3\<lparr>alternate := (fst (alternate s3), load_field root_j ''alternate2'' (snd (alternate s3)))\<rparr>;
         s5 = s4\<lparr>monitor_mode := load_field root_j ''monitor_mode'' (monitor_mode s4)\<rparr>
     in s5\<lparr>linked := load_field root_j ''linked'' (linked s5)\<rparr>)"

definition dataFromJson :: "json_object \<Rightarrow> ('w::len word, 'd) Streams \<Rightarrow> ('w word, 'd) Streams" where
  "dataFromJson root_j st = apply_to_engines (ApplySettings (settings_from_json root_j)) st"

subsection \<open>The menu's mutators\<close>

definition ToggleLink :: "('w::len word, 'd) Streams \<Rightarrow> ('w word, 'd) Streams" where
  "ToggleLink st =
    (let s = ui_settings (engine st 0);
         s' = s\<lparr>linked := linked s XOR 1\<rparr>
     in apply_to_engines (ApplySettings s') st)"

definition SetChannelMode ::
  "int \<Rightarrow> int \<Rightarrow> ('w::len word, 'd) Streams \<Rightarrow> error + ('w word, 'd) Streams" where
  "SetChannelMode channel mode_id st =
    (let s = ui_settings (engine st 0) in
     case table_at kChannelModeTable mode_id of
       Inl e \<Rightarrow> Inl e
     | Inr m \<Rightarrow>
        (case array2_set (func s) channel (word_of_int (ProcessorFunction_value (mode_function m))) of
           Inl e \<Rightarrow> Inl e
         | Inr fs \<Rightarrow>
            (case array2_set (alternate s) channel (of_bool (mode_alternate m)) of
               Inl e \<Rightarrow> Inl e
             | Inr as \<Rightarrow>
                Inr (apply_to_engines (ApplySettings (s\<lparr>func := fs, alternate := as\<rparr>)) st))))"

definition SetMonitorMode :: "int \<Rightarrow> ('w::len word, 'd) Streams \<Rightarrow> error + ('w word, 'd) Streams" where
  "SetMonitorMode mode_id st =
    (let s = ui_settings (engine st 0) in
     case table_at kMonitorModeTable mode_id of
       Inl e \<Rightarrow> Inl e
     | Inr m \<Rightarrow>
        Inr (apply_to_engines (ApplySettings (s\<lparr>monitor_mode := word_of_int (MonitorMode_value (mode m))\<rparr>)) st))"

subsection \<open>The menu's queries\<close>

text \<open>
  Lines 250 to 268: \<open>function(channel)\<close>, \<open>alternate(channel)\<close>, \<open>linked()\<close> and
  \<open>monitor_mode()\<close> read the settings of voice 0. Their names are taken by the fields here,
  so each carries the name of the struct. \<open>linked()\<close> returns \<open>bool\<close>: the stored integer
  converts to true exactly when it is not 0.
\<close>

definition Streams_function :: "int \<Rightarrow> ('w::len word, 'd) Streams \<Rightarrow> error + int" where
  "Streams_function channel st =
    (case array2_get (func (ui_settings (engine st 0))) channel of
       Inl e \<Rightarrow> Inl e
     | Inr v \<Rightarrow> Inr (uint v))"

definition Streams_alternate :: "int \<Rightarrow> ('w::len word, 'd) Streams \<Rightarrow> error + int" where
  "Streams_alternate channel st =
    (case array2_get (alternate (ui_settings (engine st 0))) channel of
       Inl e \<Rightarrow> Inl e
     | Inr v \<Rightarrow> Inr (uint v))"

definition Streams_linked :: "('w::len word, 'd) Streams \<Rightarrow> bool" where
  "Streams_linked st = (linked (ui_settings (engine st 0)) \<noteq> 0)"

definition Streams_monitor_mode :: "('w::len word, 'd) Streams \<Rightarrow> int" where
  "Streams_monitor_mode st = uint (monitor_mode (ui_settings (engine st 0)))"

subsection \<open>Reset, sample rate, randomize\<close>

text \<open>
  \<open>brightness_\<close> is declared \<open>float brightness_[NUM_LIGHTS][kNumEngines]\<close>: an access
  \<open>brightness_[i][c]\<close> is inside the array when \<open>i < NUM_LIGHTS\<close> and \<open>c < kNumEngines\<close>.
\<close>

definition brightness_set ::
  "nat \<Rightarrow> nat \<Rightarrow> real \<Rightarrow> (nat \<Rightarrow> nat \<Rightarrow> real) \<Rightarrow> error + (nat \<Rightarrow> nat \<Rightarrow> real)" where
  "brightness_set i c v tbl =
    (if i < NUM_LIGHTS \<and> c < kNumEngines then Inr (tbl(i := (tbl i)(c := v))) else Inl OutOfBounds)"

definition brightness_get :: "(nat \<Rightarrow> nat \<Rightarrow> real) \<Rightarrow> nat \<Rightarrow> nat \<Rightarrow> error + real" where
  "brightness_get tbl i c =
    (if i < NUM_LIGHTS \<and> c < kNumEngines then Inr (tbl i c) else Inl OutOfBounds)"

definition onSampleRateChange ::
  "(real \<Rightarrow> ('a, 'd) StreamsEngine \<Rightarrow> ('a, 'd) StreamsEngine) \<Rightarrow> real \<Rightarrow> ('a, 'd) Streams \<Rightarrow> ('a, 'd) Streams" where
  "onSampleRateChange SetSampleRate sample_rate st = apply_to_engines (SetSampleRate sample_rate) st"

text \<open>The inner loop of \<open>onReset\<close>: \<open>brightness_[c][i] = 0.f\<close> for the lights \<open>i\<close> of the list,
  with the engine index \<open>c\<close> first, as the source writes it.\<close>

fun reset_brightness :: "nat \<Rightarrow> nat list \<Rightarrow> (nat \<Rightarrow> nat \<Rightarrow> real) \<Rightarrow> error + (nat \<Rightarrow> nat \<Rightarrow> real)" where
  "reset_brightness c [] tbl = Inr tbl"
| "reset_brightness c (i # is) tbl =
    (case brightness_set c i 0 tbl of Inl e \<Rightarrow> Inl e | Inr tbl' \<Rightarrow> reset_brightness c is tbl')"

text \<open>The outer loop of \<open>onReset\<close>, over the engines \<open>c\<close> of the list.\<close>

fun reset_engines ::
  "(('a, 'd) StreamsEngine \<Rightarrow> ('a, 'd) StreamsEngine) \<Rightarrow> nat list \<Rightarrow> ('a, 'd) Streams \<Rightarrow> error + ('a, 'd) Streams" where
  "reset_engines Reset [] st = Inr st"
| "reset_engines Reset (c # cs) st =
    (let st1 = st\<lparr>engine := (engine st)(c := Reset (engine st c))\<rparr> in
     case reset_brightness c [0..<NUM_LIGHTS] (brightness st1) of
       Inl e \<Rightarrow> Inl e
     | Inr tbl \<Rightarrow> reset_engines Reset cs (st1\<lparr>brightness := tbl\<rparr>))"

definition onReset ::
  "(('a, 'd) StreamsEngine \<Rightarrow> ('a, 'd) StreamsEngine) \<Rightarrow>
   (real \<Rightarrow> ('a, 'd) StreamsEngine \<Rightarrow> ('a, 'd) StreamsEngine) \<Rightarrow> real \<Rightarrow>
   ('a, 'd) Streams \<Rightarrow> error + ('a, 'd) Streams" where
  "onReset Reset SetSampleRate sample_rate st =
    (case reset_engines Reset [0..<kNumEngines] st of
       Inl e \<Rightarrow> Inl e
     | Inr st1 \<Rightarrow> Inr (onSampleRateChange SetSampleRate sample_rate (st1\<lparr>prev_num_channels := 1\<rparr>)))"

definition onRandomize ::
  "(('a, 'd) StreamsEngine \<Rightarrow> ('a, 'd) StreamsEngine) \<Rightarrow> ('a, 'd) Streams \<Rightarrow> ('a, 'd) Streams" where
  "onRandomize Randomize st = apply_to_engines Randomize st"

subsection \<open>The host and the frame\<close>

text \<open>
  What the host gives one call of \<open>process\<close>: the channel count of each input
  (\<open>getChannels\<close>), whether it is connected, its voltage on each channel
  (\<open>getPolyVoltage\<close>), and the value of each parameter. The host's code is not among the
  sources, so a count is any \<open>int\<close>.
\<close>

record Host =
  getChannels :: "InputIds \<Rightarrow> int"
  isConnected :: "InputIds \<Rightarrow> bool"
  getPolyVoltage :: "InputIds \<Rightarrow> int \<Rightarrow> real"
  getValue :: "ParamIds \<Rightarrow> real"

text \<open>
  Modelled from the spec: \<open>StreamsEngine::Frame\<close> is declared in Streams/streams.hpp, which
  is not among the sources. Its fields are the ones \<open>process\<close> reads and writes: two channel
  sub-frames, the metering button and the flag \<open>lights_updated\<close>.
\<close>

record ChannelFrame =
  shape_knob :: real
  mod_knob :: real
  level_mod_knob :: real
  response_knob :: real
  signal_in_connected :: bool
  level_cv_connected :: bool
  function_button :: real
  excite_in :: real
  signal_in :: real
  level_cv :: real
  signal_out :: real
  led_green :: "nat \<Rightarrow> real"
  led_red :: "nat \<Rightarrow> real"

record Frame =
  ch1 :: ChannelFrame
  ch2 :: ChannelFrame
  metering_button :: real
  lights_updated :: bool

subsection \<open>process\<close>

text \<open>Lines 272 to 274: the number of voices of this call.\<close>

definition num_channels :: "Host \<Rightarrow> int" where
  "num_channels h = max (max (getChannels h CH1_SIGNAL_INPUT) (getChannels h CH2_SIGNAL_INPUT)) 1"

text \<open>Lines 278 to 281: \<open>engine_[c].SyncUI(engine_[0])\<close> for the indices \<open>c\<close> of the list.\<close>

fun sync_new_voices :: "int list \<Rightarrow> ('a, 'd) Streams \<Rightarrow> error + ('a, 'd) Streams" where
  "sync_new_voices [] st = Inr st"
| "sync_new_voices (c # cs) st =
    (if 0 \<le> c \<and> c < int kNumEngines
     then sync_new_voices cs (st\<lparr>engine := (engine st)(nat c := SyncUI (engine st 0) (engine st (nat c)))\<rparr>)
     else Inl OutOfBounds)"

text \<open>Lines 276 to 284: the polyphony step, for the voice count \<open>n\<close> of this call.\<close>

definition polyphony_step :: "int \<Rightarrow> ('a, 'd) Streams \<Rightarrow> error + ('a, 'd) Streams" where
  "polyphony_step n st =
    (case (if n > prev_num_channels st then sync_new_voices [prev_num_channels st..n - 1] st else Inr st) of
       Inl e \<Rightarrow> Inl e
     | Inr st1 \<Rightarrow> Inr (st1\<lparr>prev_num_channels := n\<rparr>))"

text \<open>Lines 290 to 306: the fields of the frame that are the same for every voice.\<close>

definition shared_frame :: "Host \<Rightarrow> Frame \<Rightarrow> Frame" where
  "shared_frame h frame =
    frame\<lparr>ch1 := (ch1 frame)\<lparr>shape_knob := getValue h CH1_SHAPE_PARAM,
                             mod_knob := getValue h CH1_MOD_PARAM,
                             level_mod_knob := getValue h CH1_LEVEL_MOD_PARAM,
                             response_knob := getValue h CH1_RESPONSE_PARAM,
                             signal_in_connected := isConnected h CH1_SIGNAL_INPUT,
                             level_cv_connected := isConnected h CH1_LEVEL_INPUT,
                             function_button := getValue h CH1_FUNCTION_BUTTON_PARAM\<rparr>,
          ch2 := (ch2 frame)\<lparr>shape_knob := getValue h CH2_SHAPE_PARAM,
                             mod_knob := getValue h CH2_MOD_PARAM,
                             level_mod_knob := getValue h CH2_LEVEL_MOD_PARAM,
                             response_knob := getValue h CH2_RESPONSE_PARAM,
                             signal_in_connected := isConnected h CH2_SIGNAL_INPUT,
                             level_cv_connected := isConnected h CH2_LEVEL_INPUT,
                             function_button := getValue h CH2_FUNCTION_BUTTON_PARAM\<rparr>,
          metering_button := getValue h METERING_BUTTON_PARAM\<rparr>"

text \<open>Lines 312 to 317: the inputs of voice \<open>c\<close>.\<close>

definition voice_frame :: "Host \<Rightarrow> int \<Rightarrow> Frame \<Rightarrow> Frame" where
  "voice_frame h c frame =
    frame\<lparr>ch1 := (ch1 frame)\<lparr>excite_in := getPolyVoltage h CH1_EXCITE_INPUT c,
                             signal_in := getPolyVoltage h CH1_SIGNAL_INPUT c,
                             level_cv := getPolyVoltage h CH1_LEVEL_INPUT c\<rparr>,
          ch2 := (ch2 frame)\<lparr>excite_in := getPolyVoltage h CH2_EXCITE_INPUT c,
                             signal_in := getPolyVoltage h CH2_SIGNAL_INPUT c,
                             level_cv := getPolyVoltage h CH2_LEVEL_INPUT c\<rparr>\<rparr>"

text \<open>Lines 326 to 341: the sixteen intensities of the frame, in the order of the
  source's assignments.\<close>

definition frame_leds :: "Frame \<Rightarrow> (LightIds \<times> real) list" where
  "frame_leds frame =
    [(CH1_LIGHT_1_G, led_green (ch1 frame) 0), (CH1_LIGHT_2_G, led_green (ch1 frame) 1),
     (CH1_LIGHT_3_G, led_green (ch1 frame) 2), (CH1_LIGHT_4_G, led_green (ch1 frame) 3),
     (CH1_LIGHT_1_R, led_red (ch1 frame) 0), (CH1_LIGHT_2_R, led_red (ch1 frame) 1),
     (CH1_LIGHT_3_R, led_red (ch1 frame) 2), (CH1_LIGHT_4_R, led_red (ch1 frame) 3),
     (CH2_LIGHT_1_G, led_green (ch2 frame) 0), (CH2_LIGHT_2_G, led_green (ch2 frame) 1),
     (CH2_LIGHT_3_G, led_green (ch2 frame) 2), (CH2_LIGHT_4_G, led_green (ch2 frame) 3),
     (CH2_LIGHT_1_R, led_red (ch2 frame) 0), (CH2_LIGHT_2_R, led_red (ch2 frame) 1),
     (CH2_LIGHT_3_R, led_red (ch2 frame) 2), (CH2_LIGHT_4_R, led_red (ch2 frame) 3)]"

fun store_leds ::
  "(LightIds \<times> real) list \<Rightarrow> nat \<Rightarrow> (nat \<Rightarrow> nat \<Rightarrow> real) \<Rightarrow> error + (nat \<Rightarrow> nat \<Rightarrow> real)" where
  "store_leds [] c tbl = Inr tbl"
| "store_leds ((l, v) # ws) c tbl =
    (case brightness_set (LightIds_value l) c v tbl of
       Inl e \<Rightarrow> Inl e
     | Inr tbl' \<Rightarrow> store_leds ws c tbl')"

text \<open>
  Lines 312 to 342, the body of the loop over the voices, for voice \<open>c\<close>. \<open>Process\<close> is the
  engine's opaque processing step: it takes the engine and the frame and returns both
  as it leaves them.
\<close>

definition voice_body ::
  "(('a, 'd) StreamsEngine \<Rightarrow> Frame \<Rightarrow> ('a, 'd) StreamsEngine \<times> Frame) \<Rightarrow> Host \<Rightarrow> int \<Rightarrow>
   ('a, 'd) Streams \<Rightarrow> Frame \<Rightarrow> error + ('a, 'd) Streams \<times> Frame" where
  "voice_body Process h c st frame =
    (let frame1 = voice_frame h c frame in
     if 0 \<le> c \<and> c < int kNumEngines then
       (let (e, frame2) = Process (engine st (nat c)) frame1;
            st1 = st\<lparr>engine := (engine st)(nat c := e)\<rparr>;
            st2 = st1\<lparr>output_voltages := (output_voltages st1)
                        (CH1_SIGNAL_OUTPUT := (output_voltages st1 CH1_SIGNAL_OUTPUT)(c := signal_out (ch1 frame2)))\<rparr>;
            st3 = st2\<lparr>output_voltages := (output_voltages st2)
                        (CH2_SIGNAL_OUTPUT := (output_voltages st2 CH2_SIGNAL_OUTPUT)(c := signal_out (ch2 frame2)))\<rparr>
        in if lights_updated frame2 then
             (case store_leds (frame_leds frame2) (nat c) (brightness st3) of
                Inl err \<Rightarrow> Inl err
              | Inr tbl \<Rightarrow> Inr (st3\<lparr>brightness := tbl\<rparr>, frame2))
           else Inr (st3, frame2))
     else Inl OutOfBounds)"

text \<open>Lines 308 to 345: the loop over the voices \<open>c\<close> of the list, with the local
  \<open>lights_updated\<close> as third component.\<close>

fun voices_loop ::
  "(('a, 'd) StreamsEngine \<Rightarrow> Frame \<Rightarrow> ('a, 'd) StreamsEngine \<times> Frame) \<Rightarrow> Host \<Rightarrow> int list \<Rightarrow>
   ('a, 'd) Streams \<times> Frame \<times> bool \<Rightarrow> error + ('a, 'd) Streams \<times> Frame \<times> bool" where
  "voices_loop Process h [] acc = Inr acc"
| "voices_loop Process h (c # cs) (st, frame, updated) =
    (case voice_body Process h c st frame of
       Inl e \<Rightarrow> Inl e
     | Inr (st', frame') \<Rightarrow> voices_loop Process h cs (st', frame', updated \<or> lights_updated frame'))"

text \<open>Lines 355 to 360: the maximum of row \<open>i\<close> of \<open>brightness_\<close> over the voices of the list,
  from the running value \<open>b\<close>.\<close>

fun max_brightness :: "(nat \<Rightarrow> nat \<Rightarrow> real) \<Rightarrow> nat \<Rightarrow> int list \<Rightarrow> real \<Rightarrow> error + real" where
  "max_brightness tbl i [] b = Inr b"
| "max_brightness tbl i (c # cs) b =
    (if 0 \<le> c then
       (case brightness_get tbl i (nat c) of
          Inl e \<Rightarrow> Inl e
        | Inr v \<Rightarrow> max_brightness tbl i cs (max v b))
     else Inl OutOfBounds)"

text \<open>Lines 353 to 363: the loop over the lights \<open>i\<close> of the list.\<close>

fun drive_lights :: "nat list \<Rightarrow> int \<Rightarrow> ('a, 'd) Streams \<Rightarrow> error + ('a, 'd) Streams" where
  "drive_lights [] n st = Inr st"
| "drive_lights (i # is) n st =
    (case max_brightness (brightness st) i [0..n - 1] 0 of
       Inl e \<Rightarrow> Inl e
     | Inr b \<Rightarrow>
        (if i < NUM_LIGHTS then drive_lights is n (st\<lparr>lights := (lights st)(i := b)\<rparr>)
         else Inl OutOfBounds))"

text \<open>
  \<open>process\<close>. The local \<open>frame\<close> is declared without an initialiser: what it holds before
  the assignments is the argument \<open>frame0\<close>.
\<close>

definition process ::
  "(('a, 'd) StreamsEngine \<Rightarrow> Frame \<Rightarrow> ('a, 'd) StreamsEngine \<times> Frame) \<Rightarrow> Host \<Rightarrow> Frame \<Rightarrow>
   ('a, 'd) Streams \<Rightarrow> error + ('a, 'd) Streams" where
  "process Process h frame0 st =
    (let n = num_channels h in
     case polyphony_step n st of
       Inl e \<Rightarrow> Inl e
     | Inr st1 \<Rightarrow>
        (case voices_loop Process h [0..n - 1] (st1, shared_frame h frame0, False) of
           Inl e \<Rightarrow> Inl e
         | Inr (st2, frame, updated) \<Rightarrow>
            (let st3 = st2\<lparr>output_channels := (output_channels st2)(CH1_SIGNAL_OUTPUT := n)\<rparr>;
                 st4 = st3\<lparr>output_channels := (output_channels st3)(CH2_SIGNAL_OUTPUT := n)\<rparr>
             in if updated then drive_lights [0..<NUM_LIGHTS] n st4 else Inr st4)))"

text \<open>
  What the voices of one call of \<open>process\<close> report: for each voice processed, in order,
  the flag \<open>lights_updated\<close> of the frame as the engine's \<open>Process\<close> leaves it.
\<close>

fun voice_reports ::
  "(('a, 'd) StreamsEngine \<Rightarrow> Frame \<Rightarrow> ('a, 'd) StreamsEngine \<times> Frame) \<Rightarrow> Host \<Rightarrow> int list \<Rightarrow>
   ('a, 'd) Streams \<Rightarrow> Frame \<Rightarrow> bool list" where
  "voice_reports Process h [] st frame = []"
| "voice_reports Process h (c # cs) st frame =
    (case voice_body Process h c st frame of
       Inl e \<Rightarrow> []
     | Inr (st', frame') \<Rightarrow> lights_updated frame' # voice_reports Process h cs st' frame')"

definition process_reports ::
  "(('a, 'd) StreamsEngine \<Rightarrow> Frame \<Rightarrow> ('a, 'd) StreamsEngine \<times> Frame) \<Rightarrow> Host \<Rightarrow> Frame \<Rightarrow>
   ('a, 'd) Streams \<Rightarrow> bool list" where
  "process_reports Process h frame0 st =
    (case polyphony_step (num_channels h) st of
       Inl e \<Rightarrow> []
     | Inr st1 \<Rightarrow> voice_reports Process h [0..num_channels h - 1] st1 (shared_frame h frame0))"

subsection \<open>The mutating operations as data\<close>

text \<open>
  The four operations that write the settings: the three mutators of the menu and the load
  of a saved configuration. \<open>states_after\<close> runs a sequence of them and lists the state in
  which each one returns; it stops at an operation that leaves the arrays.
\<close>

datatype mutation =
    DoToggleLink
  | DoSetChannelMode int int
  | DoSetMonitorMode int
  | DoDataFromJson json_object

fun apply_mutation :: "mutation \<Rightarrow> ('w::len word, 'd) Streams \<Rightarrow> error + ('w word, 'd) Streams" where
  "apply_mutation DoToggleLink st = Inr (ToggleLink st)"
| "apply_mutation (DoSetChannelMode channel mode_id) st = SetChannelMode channel mode_id st"
| "apply_mutation (DoSetMonitorMode mode_id) st = SetMonitorMode mode_id st"
| "apply_mutation (DoDataFromJson root_j) st = Inr (dataFromJson root_j st)"

fun states_after :: "mutation list \<Rightarrow> ('w::len word, 'd) Streams \<Rightarrow> ('w word, 'd) Streams list" where
  "states_after [] st = []"
| "states_after (m # ms) st =
    (case apply_mutation m st of Inl e \<Rightarrow> [] | Inr st' \<Rightarrow> st' # states_after ms st')"

definition settings_identical :: "('a, 'd) Streams \<Rightarrow> bool" where
  "settings_identical st =
    list_all (\<lambda>c. ui_settings (engine st c) = ui_settings (engine st 0)) [0..<kNumEngines]"

section \<open>Example inputs\<close>

text \<open>
  A module whose voice 0 differs from the other fifteen, with byte-wide settings and an
  engine without further state; the same module after loading a configuration whose
  \<open>linked\<close> is 2; a host with two channels on the first signal input, and an excitation
  and a signal on its second channel only; an engine step that lights every LED of a
  voice that is excited, and one that never reports.
\<close>

definition voice0 :: "(8 word, unit) StreamsEngine" where
  "voice0 = \<lparr>settings = \<lparr>func = (0, 0), alternate = (0, 0), monitor_mode = 2, linked = 0\<rparr>, dsp = ()\<rparr>"

definition voice_other :: "(8 word, unit) StreamsEngine" where
  "voice_other = \<lparr>settings = \<lparr>func = (3, 1), alternate = (1, 0), monitor_mode = 1, linked = 1\<rparr>, dsp = ()\<rparr>"

definition example_module :: "(8 word, unit) Streams" where
  "example_module =
    \<lparr>engine = (\<lambda>c. if c = 0 then voice0 else voice_other),
     brightness = (\<lambda>i c. 0), prev_num_channels = 1, lights = (\<lambda>i. 1 / 2),
     output_voltages = (\<lambda>out c. 0), output_channels = (\<lambda>out. 0)\<rparr>"

definition example_lorenz :: "(8 word, unit) Streams" where
  "example_lorenz =
    apply_to_engines (ApplySettings \<lparr>func = (0, 5), alternate = (0, 0), monitor_mode = 2, linked = 0\<rparr>)
      example_module"

definition example_output :: "(8 word, unit) Streams" where
  "example_output =
    apply_to_engines (ApplySettings \<lparr>func = (0, 0), alternate = (0, 0), monitor_mode = 3, linked = 0\<rparr>)
      example_module"

definition example_linked_2 :: "(8 word, unit) Streams" where
  "example_linked_2 = dataFromJson [''linked'' \<mapsto> JSON_INTEGER 2] example_module"

definition example_host :: Host where
  "example_host =
    \<lparr>getChannels = (\<lambda>i. if i = CH1_SIGNAL_INPUT then 2 else 1),
     isConnected = (\<lambda>i. True),
     getPolyVoltage = (\<lambda>i c. if i = CH1_EXCITE_INPUT \<and> c = 1 then 5
                             else if i = CH1_SIGNAL_INPUT \<and> c = 1 then 3 else 0),
     getValue = (\<lambda>p. 0)\<rparr>"

definition host_17 :: Host where
  "host_17 =
    \<lparr>getChannels = (\<lambda>i. if i = CH1_SIGNAL_INPUT then 17 else 1),
     isConnected = (\<lambda>i. True),
     getPolyVoltage = (\<lambda>i c. 0),
     getValue = (\<lambda>p. 0)\<rparr>"

definition example_channel :: ChannelFrame where
  "example_channel =
    \<lparr>shape_knob = 0, mod_knob = 0, level_mod_knob = 0, response_knob = 0,
     signal_in_connected = False, level_cv_connected = False, function_button = 0,
     excite_in = 0, signal_in = 0, level_cv = 0, signal_out = 0,
     led_green = (\<lambda>k. 0), led_red = (\<lambda>k. 0)\<rparr>"

definition example_frame :: Frame where
  "example_frame = \<lparr>ch1 = example_channel, ch2 = example_channel, metering_button = 0, lights_updated = False\<rparr>"

definition lit_when_excited :: "(8 word, unit) StreamsEngine \<Rightarrow> Frame \<Rightarrow> (8 word, unit) StreamsEngine \<times> Frame" where
  "lit_when_excited e frame =
    (e, frame\<lparr>ch1 := (ch1 frame)\<lparr>signal_out := signal_in (ch1 frame),
                                   led_green := (\<lambda>k. if excite_in (ch1 frame) > 0 then 1 else 0),
                                   led_red := (\<lambda>k. 0)\<rparr>,
               lights_updated := True\<rparr>)"

definition never_reports :: "(8 word, unit) StreamsEngine \<Rightarrow> Frame \<Rightarrow> (8 word, unit) StreamsEngine \<times> Frame" where
  "never_reports e frame = (e, frame\<lparr>lights_updated := False\<rparr>)"

section \<open>Auxiliary facts\<close>

lemma fold_engines:
  "fold (\<lambda>c es. es(c := f (es c))) [0..<n] es = (\<lambda>c. if c < n then f (es c) else es c)"
  by (induction n) (auto simp: fun_eq_iff)

lemma engine_apply_to_engines:
  "engine (apply_to_engines f st) c = (if c < kNumEngines then f (engine st c) else engine st c)"
  by (simp add: apply_to_engines_def fold_engines)

lemma apply_to_engines_rest:
  "brightness (apply_to_engines f st) = brightness st"
  "prev_num_channels (apply_to_engines f st) = prev_num_channels st"
  "lights (apply_to_engines f st) = lights st"
  "output_voltages (apply_to_engines f st) = output_voltages st"
  "output_channels (apply_to_engines f st) = output_channels st"
  by (simp_all add: apply_to_engines_def)

lemma ui_settings_broadcast:
  "c < kNumEngines \<Longrightarrow> ui_settings (engine (apply_to_engines (ApplySettings s) st) c) = s"
  by (simp add: engine_apply_to_engines ui_settings_def ApplySettings_def)

lemma xor_1_eq_1: "(x XOR 1 = (1::'w::len word)) = (x = 0)" 
  by (metis bit.xor_self xor.left_commute xor.right_neutral)
lemma xor_1_eq_0: "(x XOR 1 = (0::'w::len word)) = (x = 1)" 
   by (metis bit.xor_self xor.left_commute xor.right_neutral)

lemma kNumEngines_pos: "0 < kNumEngines" by (simp add: kNumEngines_def)

lemma settings_round_trip: "settings_from_json (settings_to_json s) = (s :: 'w::len word UiSettings)"
  by (simp add: settings_from_json_def settings_to_json_def load_field_def Let_def UiSettings_zero_def)

lemma settings_from_empty: "settings_from_json Map.empty = (UiSettings_zero :: 'w::len word UiSettings)"
  by (simp add: settings_from_json_def load_field_def Let_def UiSettings_zero_def)

lemma settings_identical_iff:
  "settings_identical st = (\<forall>c<kNumEngines. ui_settings (engine st c) = ui_settings (engine st 0))"
  by (simp add: settings_identical_def list_all_iff Ball_def)

lemma settings_identical_broadcast: "settings_identical (apply_to_engines (ApplySettings s) st)"
  by (simp add: settings_identical_iff ui_settings_broadcast kNumEngines_pos)

lemma apply_mutation_identical:
  assumes "apply_mutation m st = Inr st'"
  shows "settings_identical st'"
proof (cases m)
  case DoToggleLink
  then show ?thesis using assms by (auto simp: ToggleLink_def Let_def settings_identical_broadcast)
next
  case (DoSetChannelMode channel mode_id)
  then show ?thesis using assms
    by (auto simp: SetChannelMode_def Let_def settings_identical_broadcast split: sum.splits)
next
  case (DoSetMonitorMode mode_id)
  then show ?thesis using assms
    by (auto simp: SetMonitorMode_def Let_def settings_identical_broadcast split: sum.splits)
next
  case (DoDataFromJson root_j)
  then show ?thesis using assms by (auto simp: dataFromJson_def settings_identical_broadcast)
qed

lemma states_after_identical: "st' \<in> set (states_after ms st) \<Longrightarrow> settings_identical st'"
proof (induction ms arbitrary: st)
  case Nil
  then show ?case by simp
next
  case (Cons m ms)
  show ?case
  proof (cases "apply_mutation m st")
    case (Inl e)
    with Cons.prems show ?thesis by simp
  next
    case (Inr st1)
    with Cons.prems have "st' = st1 \<or> st' \<in> set (states_after ms st1)" by simp
    then show ?thesis
    proof
      assume "st' = st1"
      then show ?thesis using apply_mutation_identical [OF Inr] by simp
    next
      assume "st' \<in> set (states_after ms st1)"
      then show ?thesis by (rule Cons.IH)
    qed
  qed
qed

lemma table_at_channel_mode:
  "(\<exists>m. table_at kChannelModeTable i = Inr m) = (0 \<le> i \<and> i < kNumChannelModes)"
  by (simp add: table_at_def kChannelModeTable_def kNumChannelModes_def)

lemma table_at_monitor_mode:
  "(\<exists>m. table_at kMonitorModeTable i = Inr m) = (0 \<le> i \<and> i < kNumMonitorModes)"
  by (simp add: table_at_def kMonitorModeTable_def kNumMonitorModes_def)

lemma array2_set_Inr: "(\<exists>b. array2_set a i v = Inr b) = (i = 0 \<or> i = 1)"
  by (simp add: array2_set_def)

lemma array2_get_set:
  "array2_set a i v = Inr b \<Longrightarrow>
    array2_get b i = Inr v \<and> array2_get b (1 - i) = array2_get a (1 - i)"
  by (auto simp: array2_set_def array2_get_def split: if_splits)

lemma ToggleLink_settings:
  fixes st :: "('w::len word, 'd) Streams"
  assumes "c < kNumEngines"
  shows "ui_settings (engine (ToggleLink st) c)
    = (ui_settings (engine st 0))\<lparr>linked := linked (ui_settings (engine st 0)) XOR 1\<rparr>"
  using assms by (simp add: ToggleLink_def Let_def ui_settings_broadcast)

lemma SetChannelMode_settings:
  fixes st :: "('w::len word, 'd) Streams"
  assumes "SetChannelMode channel mode_id st = Inr st'" and "c < kNumEngines"
  shows "\<exists>m fs as. table_at kChannelModeTable mode_id = Inr m
    \<and> array2_set (func (ui_settings (engine st 0))) channel
         (word_of_int (ProcessorFunction_value (mode_function m))) = Inr fs
    \<and> array2_set (alternate (ui_settings (engine st 0))) channel (of_bool (mode_alternate m)) = Inr as
    \<and> ui_settings (engine st' c) = (ui_settings (engine st 0))\<lparr>func := fs, alternate := as\<rparr>"
  using assms
  by (auto simp: SetChannelMode_def Let_def ui_settings_broadcast split: sum.splits)

lemma SetMonitorMode_settings:
  fixes st :: "('w::len word, 'd) Streams"
  assumes "SetMonitorMode mode_id st = Inr st'" and "c < kNumEngines"
  shows "\<exists>m. table_at kMonitorModeTable mode_id = Inr m
    \<and> ui_settings (engine st' c)
      = (ui_settings (engine st 0))\<lparr>monitor_mode := word_of_int (MonitorMode_value (mode m))\<rparr>"
  using assms
  by (auto simp: SetMonitorMode_def Let_def ui_settings_broadcast split: sum.splits)

lemma SyncUI_self: "SyncUI e e = e"
  by (simp add: SyncUI_def)

lemma SyncUI_twice: "SyncUI a (SyncUI a e) = SyncUI a e"
  by (simp add: SyncUI_def)

lemma ui_settings_SyncUI: "ui_settings (SyncUI a e) = ui_settings a"
  by (simp add: SyncUI_def ui_settings_def)

lemma sync_new_voices_Inr:
  assumes "\<forall>c\<in>set cs. 0 \<le> c \<and> c < int kNumEngines"
  shows "sync_new_voices cs st =
    Inr (st\<lparr>engine := (\<lambda>i. if i \<in> nat ` set cs then SyncUI (engine st 0) (engine st i) else engine st i)\<rparr>)"
  using assms
proof (induction cs arbitrary: st)
  case Nil
  then show ?case by simp
next
  case (Cons c cs)
  let ?st1 = "st\<lparr>engine := (engine st)(nat c := SyncUI (engine st 0) (engine st (nat c)))\<rparr>"
  have c: "0 \<le> c" "c < int kNumEngines" and cs: "\<forall>c\<in>set cs. 0 \<le> c \<and> c < int kNumEngines"
    using Cons.prems by simp_all
  have e0: "engine ?st1 0 = engine st 0"
    by (simp add: SyncUI_self)
  have "sync_new_voices (c # cs) st = sync_new_voices cs ?st1"
    using c by simp
  also have "\<dots> = Inr (?st1\<lparr>engine :=
      (\<lambda>i. if i \<in> nat ` set cs then SyncUI (engine ?st1 0) (engine ?st1 i) else engine ?st1 i)\<rparr>)"
    by (rule Cons.IH [OF cs])
  also have "(\<lambda>i. if i \<in> nat ` set cs then SyncUI (engine ?st1 0) (engine ?st1 i) else engine ?st1 i)
      = (\<lambda>i. if i \<in> nat ` set (c # cs) then SyncUI (engine st 0) (engine st i) else engine st i)"
    unfolding e0 by (rule ext) (simp add: SyncUI_twice)
  finally show ?case by simp
qed

lemma sync_new_voices_bounds:
  "sync_new_voices cs st = Inr st' \<Longrightarrow> \<forall>c\<in>set cs. 0 \<le> c \<and> c < int kNumEngines"
  by (induction cs arbitrary: st) (auto split: if_splits)

lemma polyphony_step_shrink:
  "n \<le> prev_num_channels st \<Longrightarrow> polyphony_step n st = Inr (st\<lparr>prev_num_channels := n\<rparr>)"
  by (simp add: polyphony_step_def)

lemma polyphony_step_grow:
  assumes "prev_num_channels st < n" "0 \<le> prev_num_channels st" "n \<le> int kNumEngines"
  shows "polyphony_step n st =
    Inr (st\<lparr>engine := (\<lambda>i. if int i \<in> {prev_num_channels st..<n}
                            then SyncUI (engine st 0) (engine st i) else engine st i),
            prev_num_channels := n\<rparr>)"
proof -
  have b: "\<forall>c\<in>set [prev_num_channels st..n - 1]. 0 \<le> c \<and> c < int kNumEngines"
    using assms by auto
  have s: "\<And>i. (i \<in> nat ` set [prev_num_channels st..n - 1]) = (int i \<in> {prev_num_channels st..<n})"
  proof -
    fix i :: nat
    show "(i \<in> nat ` set [prev_num_channels st..n - 1]) = (int i \<in> {prev_num_channels st..<n})"
    proof
      assume "i \<in> nat ` set [prev_num_channels st..n - 1]"
      then obtain x where "prev_num_channels st \<le> x" "x \<le> n - 1" "i = nat x" by auto
      then show "int i \<in> {prev_num_channels st..<n}" using assms(2) by simp
    next
      assume "int i \<in> {prev_num_channels st..<n}"
      then have "int i \<in> set [prev_num_channels st..n - 1]" "i = nat (int i)" by simp_all
      then show "i \<in> nat ` set [prev_num_channels st..n - 1]" by (rule_tac image_eqI)
    qed
  qed
  show ?thesis
    using assms(1) by (simp add: polyphony_step_def sync_new_voices_Inr [OF b] s del: set_upto)
qed

lemma LightIds_value_less: "LightIds_value l < NUM_LIGHTS"
  by (cases l) (simp_all add: NUM_LIGHTS_def)

lemma store_leds_Inr: "c < kNumEngines \<Longrightarrow> \<exists>tbl'. store_leds ws c tbl = Inr tbl'"
proof (induction ws arbitrary: tbl)
  case Nil
  then show ?case by simp
next
  case (Cons w ws)
  obtain l v where w: "w = (l, v)" by (cases w)
  show ?case using Cons.prems Cons.IH
    by (simp add: w brightness_set_def LightIds_value_less)
qed

lemma voice_body_Inr:
  assumes "0 \<le> c" "c < int kNumEngines"
  shows "\<exists>r. voice_body Process h c st frame = Inr r"
proof -
  obtain e frame2 where p: "Process (engine st (nat c)) (voice_frame h c frame) = (e, frame2)"
    by (cases "Process (engine st (nat c)) (voice_frame h c frame)")
  have "nat c < kNumEngines" using assms by simp
  from store_leds_Inr [OF this] show ?thesis
    using assms by (simp add: voice_body_def Let_def p split: sum.splits) (metis sum.distinct(1))
qed

lemma voice_body_frame:
  assumes "voice_body Process h c st frame = Inr (st', frame')"
  shows "0 \<le> c \<and> c < int kNumEngines
    \<and> prev_num_channels st' = prev_num_channels st
    \<and> lights st' = lights st
    \<and> output_channels st' = output_channels st"
proof -
  obtain e frame2 where p: "Process (engine st (nat c)) (voice_frame h c frame) = (e, frame2)"
    by (cases "Process (engine st (nat c)) (voice_frame h c frame)")
  show ?thesis using assms
    by (auto simp: voice_body_def Let_def p split: if_splits sum.splits)
qed

lemma voices_loop_Inr:
  assumes "\<forall>c\<in>set cs. 0 \<le> c \<and> c < int kNumEngines"
  shows "\<exists>r. voices_loop Process h cs (st, frame, updated) = Inr r"
  using assms
proof (induction cs arbitrary: st frame updated)
  case Nil
  then show ?case by simp
next
  case (Cons c cs)
  then have "0 \<le> c" "c < int kNumEngines" by simp_all
  from voice_body_Inr [OF this] obtain st' frame' where
    "voice_body Process h c st frame = Inr (st', frame')" by fastforce
  then show ?case using Cons.IH Cons.prems by simp
qed

lemma voices_loop_frame:
  assumes "voices_loop Process h cs (st, frame, updated) = Inr (st', frame', updated')"
  shows "(\<forall>c\<in>set cs. 0 \<le> c \<and> c < int kNumEngines)
    \<and> prev_num_channels st' = prev_num_channels st
    \<and> lights st' = lights st
    \<and> output_channels st' = output_channels st
    \<and> updated' = (updated \<or> True \<in> set (voice_reports Process h cs st frame))"
  using assms
proof (induction cs arbitrary: st frame updated)
  case Nil
  then show ?case by simp
next
  case (Cons c cs)
  from Cons.prems obtain st1 frame1 where
    b: "voice_body Process h c st frame = Inr (st1, frame1)"
    and l: "voices_loop Process h cs (st1, frame1, updated \<or> lights_updated frame1) = Inr (st', frame', updated')"
    by (auto split: sum.splits)
  note f = voice_body_frame [OF b]
  note ih = Cons.IH [OF l]
  show ?case using f ih by (simp add: b)
qed

lemma Max_insert_max:
  fixes v b :: real
  assumes "finite S"
  shows "Max (insert (max v b) S) = Max (insert b (insert v S))"
proof (cases "S = {}")
  case True
  then show ?thesis by (simp add: max.commute)
next
  case False
  then show ?thesis using assms by (simp add: max.assoc max.commute max.left_commute)
qed

lemma max_brightness_Max:
  assumes "i < NUM_LIGHTS" and "\<forall>c\<in>set cs. 0 \<le> c \<and> c < int kNumEngines"
  shows "max_brightness tbl i cs b = Inr (Max (insert b ((\<lambda>c. tbl i (nat c)) ` set cs)))"
  using assms(2)
proof (induction cs arbitrary: b)
  case Nil
  then show ?case by simp
next
  case (Cons c cs)
  then have c0: "0 \<le> c" "c < int kNumEngines" and cs: "\<forall>c\<in>set cs. 0 \<le> c \<and> c < int kNumEngines"
    by simp_all
  then have c: "0 \<le> c" "nat c < kNumEngines" by linarith+
  have "max_brightness tbl i (c # cs) b = max_brightness tbl i cs (max (tbl i (nat c)) b)"
    using c assms(1) by (simp add: brightness_get_def)
  also have "\<dots> = Inr (Max (insert (max (tbl i (nat c)) b) ((\<lambda>c. tbl i (nat c)) ` set cs)))"
    by (rule Cons.IH [OF cs])
  finally show ?case by (simp add: Max_insert_max)
qed

lemma max_brightness_bounds:
  "max_brightness tbl i cs b = Inr r \<Longrightarrow> \<forall>c\<in>set cs. 0 \<le> c \<and> c < int kNumEngines"
  by (induction cs arbitrary: b) (auto simp: brightness_get_def split: if_splits sum.splits)

lemma voices_upto_image:
  assumes "1 \<le> n"
  shows "(\<lambda>c. f (nat c)) ` set [0..n - 1] = f ` {0..<nat n}"
proof -
  have "nat ` {0..n - 1} = {0..<nat n}"
  proof (rule set_eqI)
    fix k :: nat
    show "(k \<in> nat ` {0..n - 1}) = (k \<in> {0..<nat n})"
    proof
      assume "k \<in> nat ` {0..n - 1}"
      then obtain x where "0 \<le> x" "x \<le> n - 1" "k = nat x" by auto
      then show "k \<in> {0..<nat n}" by simp
    next
      assume "k \<in> {0..<nat n}"
      then have "int k \<in> {0..n - 1}" "k = nat (int k)" by auto
      then show "k \<in> nat ` {0..n - 1}" by (rule_tac image_eqI)
    qed
  qed
  then have "f ` (nat ` {0..n - 1}) = f ` {0..<nat n}" by simp
  then show ?thesis by (simp add: image_image)
qed

lemma drive_lights_Inr:
  assumes "\<forall>i\<in>set is. i < NUM_LIGHTS" and "\<forall>c\<in>set [0..n - 1]. 0 \<le> c \<and> c < int kNumEngines"
  shows "drive_lights is n st =
    Inr (st\<lparr>lights := (\<lambda>i. if i \<in> set is
       then Max (insert 0 ((\<lambda>c. brightness st i (nat c)) ` set [0..n - 1])) else lights st i)\<rparr>)"
  using assms(1)
proof (induction "is" arbitrary: st)
  case Nil
  then show ?case by simp
next
  case (Cons i "is")
  then have i: "i < NUM_LIGHTS" and r: "\<forall>i\<in>set is. i < NUM_LIGHTS" by simp_all
  let ?m = "\<lambda>i. Max (insert 0 ((\<lambda>c. brightness st i (nat c)) ` set [0..n - 1]))"
  let ?st1 = "st\<lparr>lights := (lights st)(i := ?m i)\<rparr>"
  have "drive_lights (i # is) n st = drive_lights is n ?st1"
    using i by (simp add: max_brightness_Max [OF i assms(2)] del: set_upto)
  also have "\<dots> = Inr (?st1\<lparr>lights := (\<lambda>j. if j \<in> set is
       then Max (insert 0 ((\<lambda>c. brightness ?st1 j (nat c)) ` set [0..n - 1])) else lights ?st1 j)\<rparr>)"
    by (rule Cons.IH [OF r])
  also have "(\<lambda>j. if j \<in> set is
       then Max (insert 0 ((\<lambda>c. brightness ?st1 j (nat c)) ` set [0..n - 1])) else lights ?st1 j)
     = (\<lambda>j. if j \<in> set (i # is) then ?m j else lights st j)"
    by (rule ext) (simp del: set_upto)
  finally show ?case by (simp del: set_upto)
qed

lemma num_channels_ge_1: "1 \<le> num_channels h"
  by (simp add: num_channels_def)

lemma sync_new_voices_frame:
  assumes "sync_new_voices cs st = Inr st'"
  shows "brightness st' = brightness st \<and> prev_num_channels st' = prev_num_channels st
    \<and> lights st' = lights st \<and> output_channels st' = output_channels st
    \<and> output_voltages st' = output_voltages st"
  using assms sync_new_voices_Inr [OF sync_new_voices_bounds [OF assms], of st] by auto

lemma polyphony_step_frame:
  assumes "polyphony_step n st = Inr st'"
  shows "brightness st' = brightness st \<and> prev_num_channels st' = n
    \<and> lights st' = lights st \<and> output_channels st' = output_channels st
    \<and> output_voltages st' = output_voltages st"
proof (cases "n > prev_num_channels st")
  case True
  with assms obtain st1 where s: "sync_new_voices [prev_num_channels st..n - 1] st = Inr st1"
    and e: "st' = st1\<lparr>prev_num_channels := n\<rparr>"
    by (auto simp: polyphony_step_def split: sum.splits)
  show ?thesis using sync_new_voices_frame [OF s] by (simp add: e)
next
  case False
  with assms show ?thesis by (auto simp: polyphony_step_def)
qed

lemma upto_bounds_le:
  assumes "1 \<le> n" and "\<forall>c\<in>set [0..n - 1]. 0 \<le> c \<and> c < int kNumEngines"
  shows "n \<le> int kNumEngines"
proof -
  have "n - 1 \<in> set [0..n - 1]" using assms(1) by simp
  with assms(2) have "n - 1 < int kNumEngines" by blast
  then show ?thesis by simp
qed

lemma process_Inr_D:
  assumes "process Process h frame0 st = Inr st'"
  shows "\<exists>st1 st2 frame updated.
    polyphony_step (num_channels h) st = Inr st1
    \<and> voices_loop Process h [0..num_channels h - 1] (st1, shared_frame h frame0, False)
        = Inr (st2, frame, updated)
    \<and> (if updated
        then drive_lights [0..<NUM_LIGHTS] (num_channels h)
          (st2\<lparr>output_channels := (output_channels st2)
              (CH1_SIGNAL_OUTPUT := num_channels h, CH2_SIGNAL_OUTPUT := num_channels h)\<rparr>)
        else Inr (st2\<lparr>output_channels := (output_channels st2)
              (CH1_SIGNAL_OUTPUT := num_channels h, CH2_SIGNAL_OUTPUT := num_channels h)\<rparr>)) = Inr st'"
  using assms
  by (auto simp: process_def Let_def split: sum.splits prod.splits if_splits)

lemma process_reports_updated:
  assumes "polyphony_step (num_channels h) st = Inr st1"
    and "voices_loop Process h [0..num_channels h - 1] (st1, shared_frame h frame0, False)
        = Inr (st2, frame, updated)"
  shows "updated = (True \<in> set (process_reports Process h frame0 st))"
  using voices_loop_frame [OF assms(2)] by (simp add: process_reports_def assms(1))

lemma process_lights:
  assumes "process Process h frame0 st = Inr st'"
  shows "num_channels h \<le> int kNumEngines
    \<and> output_channels st' CH1_SIGNAL_OUTPUT = num_channels h
    \<and> output_channels st' CH2_SIGNAL_OUTPUT = num_channels h
    \<and> prev_num_channels st' = num_channels h
    \<and> lights st' = (if True \<in> set (process_reports Process h frame0 st)
        then (\<lambda>i. if i < NUM_LIGHTS
          then Max (insert 0 (brightness st' i ` {0..<nat (num_channels h)})) else lights st i)
        else lights st)"
proof -
  let ?n = "num_channels h"
  from process_Inr_D [OF assms] obtain st1 st2 frame updated where
    p: "polyphony_step ?n st = Inr st1"
    and v: "voices_loop Process h [0..?n - 1] (st1, shared_frame h frame0, False) = Inr (st2, frame, updated)"
    and d: "(if updated
        then drive_lights [0..<NUM_LIGHTS] ?n
          (st2\<lparr>output_channels := (output_channels st2)
              (CH1_SIGNAL_OUTPUT := ?n, CH2_SIGNAL_OUTPUT := ?n)\<rparr>)
        else Inr (st2\<lparr>output_channels := (output_channels st2)
              (CH1_SIGNAL_OUTPUT := ?n, CH2_SIGNAL_OUTPUT := ?n)\<rparr>)) = Inr st'"
    by blast
  let ?st4 = "st2\<lparr>output_channels := (output_channels st2)
              (CH1_SIGNAL_OUTPUT := ?n, CH2_SIGNAL_OUTPUT := ?n)\<rparr>"
  note pf = polyphony_step_frame [OF p]
  note vf = voices_loop_frame [OF v]
  note u = process_reports_updated [OF p v]
  have b: "\<forall>c\<in>set [0..?n - 1]. 0 \<le> c \<and> c < int kNumEngines" using vf by blast
  have n: "?n \<le> int kNumEngines" by (rule upto_bounds_le [OF num_channels_ge_1 b])
  have l2: "lights st2 = lights st" "prev_num_channels st2 = ?n" using pf vf by simp_all
  show ?thesis
  proof (cases updated)
    case False
    with d have "st' = ?st4" by simp
    then show ?thesis using n l2 u False by simp
  next
    case True
    have "\<forall>i\<in>set [0..<NUM_LIGHTS]. i < NUM_LIGHTS" by simp
    from drive_lights_Inr [OF this b, of ?st4] d True
    have e: "st' = ?st4\<lparr>lights := (\<lambda>i. if i \<in> set [0..<NUM_LIGHTS]
       then Max (insert 0 ((\<lambda>c. brightness ?st4 i (nat c)) ` set [0..?n - 1])) else lights ?st4 i)\<rparr>"
      by simp
    have i: "\<And>i. (\<lambda>c. brightness st2 i (nat c)) ` set [0..?n - 1] = brightness st2 i ` {0..<nat ?n}"
      by (rule voices_upto_image [OF num_channels_ge_1])
    have bs: "brightness st' = brightness st2" by (simp add: e)
    have "lights st' = (\<lambda>i. if i < NUM_LIGHTS
          then Max (insert 0 (brightness st' i ` {0..<nat ?n})) else lights st i)"
      unfolding bs by (rule ext) (simp add: e i l2 del: set_upto)
    moreover have "output_channels st' CH1_SIGNAL_OUTPUT = ?n" "output_channels st' CH2_SIGNAL_OUTPUT = ?n"
      "prev_num_channels st' = ?n"
      by (simp_all add: e l2)
    ultimately show ?thesis using n u True by simp
  qed
qed

lemma process_Inr:
  assumes "num_channels h \<le> int kNumEngines" and "0 \<le> prev_num_channels st"
  shows "\<exists>st'. process Process h frame0 st = Inr st'"
proof -
  let ?n = "num_channels h"
  have b: "\<forall>c\<in>set [0..?n - 1]. 0 \<le> c \<and> c < int kNumEngines" using assms(1) by simp
  have "\<exists>st1. polyphony_step ?n st = Inr st1"
  proof (cases "prev_num_channels st < ?n")
    case True
    from polyphony_step_grow [OF True assms(2) assms(1)] show ?thesis by blast
  next
    case False
    then show ?thesis by (simp add: polyphony_step_shrink)
  qed
  then obtain st1 where p: "polyphony_step ?n st = Inr st1" by blast
  from voices_loop_Inr [OF b] obtain st2 frame updated where
    v: "voices_loop Process h [0..?n - 1] (st1, shared_frame h frame0, False) = Inr (st2, frame, updated)"
    by (metis prod_cases3)
  have l: "\<forall>i\<in>set [0..<NUM_LIGHTS]. i < NUM_LIGHTS" by simp
  show ?thesis
    by (simp add: process_def Let_def p v drive_lights_Inr [OF l b] del: set_upto)
qed

lemma reset_brightness_Inr:
  assumes "c < NUM_LIGHTS" and "\<forall>i\<in>set is. i < kNumEngines"
  shows "reset_brightness c is tbl =
    Inr (\<lambda>i' c'. if i' = c \<and> c' \<in> set is then 0 else tbl i' c')"
  using assms(2)
proof (induction "is" arbitrary: tbl)
  case Nil
  then show ?case by simp
next
  case (Cons i "is")
  then have i: "i < kNumEngines" and r: "\<forall>i\<in>set is. i < kNumEngines" by simp_all
  have "reset_brightness c (i # is) tbl = reset_brightness c is (tbl(c := (tbl c)(i := 0)))"
    using assms(1) i by (simp add: brightness_set_def)
  also have "\<dots> = Inr (\<lambda>i' c'. if i' = c \<and> c' \<in> set is then 0 else (tbl(c := (tbl c)(i := 0))) i' c')"
    by (rule Cons.IH [OF r])
  also have "(\<lambda>i' c'. if i' = c \<and> c' \<in> set is then 0 else (tbl(c := (tbl c)(i := 0))) i' c')
    = (\<lambda>i' c'. if i' = c \<and> c' \<in> set (i # is) then 0 else tbl i' c')"
    by (intro ext) simp
  finally show ?case .
qed

lemma reset_engines_Inr:
  assumes "\<forall>c\<in>set cs. c < kNumEngines"
  shows "\<exists>st'. reset_engines Reset cs st = Inr st'
    \<and> prev_num_channels st' = prev_num_channels st
    \<and> lights st' = lights st
    \<and> brightness st' = (\<lambda>i c. if i \<in> set cs \<and> c < NUM_LIGHTS then 0 else brightness st i c)"
  using assms
proof (induction cs arbitrary: st)
  case Nil
  then show ?case by simp
next
  case (Cons c cs)
  then have c: "c < NUM_LIGHTS" and r: "\<forall>c\<in>set cs. c < kNumEngines"
    by (simp_all add: NUM_LIGHTS_def kNumEngines_def)
  have l: "\<forall>i\<in>set [0..<NUM_LIGHTS]. i < kNumEngines"
    by (simp add: NUM_LIGHTS_def kNumEngines_def)
  let ?st1 = "st\<lparr>engine := (engine st)(c := Reset (engine st c)),
    brightness := (\<lambda>i' c'. if i' = c \<and> c' \<in> set [0..<NUM_LIGHTS] then 0 else brightness st i' c')\<rparr>"
  have s: "reset_engines Reset (c # cs) st = reset_engines Reset cs ?st1"
    by (simp add: Let_def reset_brightness_Inr [OF c l] cong: if_cong)
  from Cons.IH [OF r, of ?st1] obtain st' where
    r1: "reset_engines Reset cs ?st1 = Inr st'"
    and r2: "prev_num_channels st' = prev_num_channels ?st1"
    and r3: "lights st' = lights ?st1"
    and r4: "brightness st' = (\<lambda>i c. if i \<in> set cs \<and> c < NUM_LIGHTS then 0 else brightness ?st1 i c)"
    by blast
  have "reset_engines Reset (c # cs) st = Inr st'"
    by (simp only: s r1)
  moreover have "prev_num_channels st' = prev_num_channels st"
    by (simp add: r2)
  moreover have "lights st' = lights st"
    by (simp add: r3)
  moreover have "brightness st' =
      (\<lambda>i ca. if i \<in> set (c # cs) \<and> ca < NUM_LIGHTS then 0 else brightness st i ca)"
    unfolding r4 by (intro ext) simp
  ultimately show ?case by blast
qed

lemma onReset_Inr:
  "\<exists>st'. onReset Reset SetSampleRate sample_rate st = Inr st'
    \<and> prev_num_channels st' = 1
    \<and> lights st' = lights st
    \<and> brightness st' = (\<lambda>i c. if i < kNumEngines \<and> c < NUM_LIGHTS then 0 else brightness st i c)"
proof -
  have "\<forall>c\<in>set [0..<kNumEngines]. c < kNumEngines" by simp
  from reset_engines_Inr [OF this, of Reset st] obtain st1 where
    "reset_engines Reset [0..<kNumEngines] st = Inr st1"
    "prev_num_channels st1 = prev_num_channels st"
    "lights st1 = lights st"
    "brightness st1 = (\<lambda>i c. if i \<in> set [0..<kNumEngines] \<and> c < NUM_LIGHTS then 0 else brightness st i c)"
    by blast
  then show ?thesis
    by (simp add: onReset_def onSampleRateChange_def apply_to_engines_rest)
qed

section \<open>The claims\<close>

lemma voice_reports_length:
  "voices_loop Process h cs (st, frame, updated) = Inr r \<Longrightarrow>
    length (voice_reports Process h cs st frame) = length cs"
proof (induction cs arbitrary: st frame updated)
  case Nil
  then show ?case by simp
next
  case (Cons c cs)
  from Cons.prems obtain st1 frame1 where
    b: "voice_body Process h c st frame = Inr (st1, frame1)"
    and l: "voices_loop Process h cs (st1, frame1, updated \<or> lights_updated frame1) = Inr r"
    by (auto split: sum.splits)
  show ?case using Cons.IH [OF l] by (simp add: b)
qed

lemma process_reports_length:
  assumes "process Process h frame0 st = Inr st'"
  shows "length (process_reports Process h frame0 st) = nat (num_channels h)"
proof -
  from process_Inr_D [OF assms] obtain st1 st2 frame updated where
    p: "polyphony_step (num_channels h) st = Inr st1"
    and v: "voices_loop Process h [0..num_channels h - 1] (st1, shared_frame h frame0, False)
        = Inr (st2, frame, updated)"
    by blast
  show ?thesis
    using voice_reports_length [OF v] num_channels_ge_1 [of h] by (simp add: process_reports_def p)
qed

text \<open>
  C1. After any one of the mutating operations (ToggleLink, SetChannelMode, SetMonitorMode,
  dataFromJson) returns, each of the sixteen voices holds the settings of voice 0; and in
  any sequence of such operations this holds in every state in which an operation returns.
\<close>

theorem settings_broadcast_consistency:
  "(apply_mutation m st = Inr st' \<longrightarrow>
      (\<forall>c<kNumEngines. ui_settings (engine st' c) = ui_settings (engine st' 0)))
   \<and> (\<forall>s \<in> set (states_after ms st).
        \<forall>c<kNumEngines. ui_settings (engine s c) = ui_settings (engine s 0))"
proof (intro conjI impI ballI)
  assume "apply_mutation m st = Inr st'"
  then have "settings_identical st'" by (rule apply_mutation_identical)
  then show "\<forall>c<kNumEngines. ui_settings (engine st' c) = ui_settings (engine st' 0)"
    by (simp only: settings_identical_iff)
next
  fix s assume "s \<in> set (states_after ms st)"
  then have "settings_identical s" by (rule states_after_identical)
  then show "\<forall>c<kNumEngines. ui_settings (engine s c) = ui_settings (engine s 0)"
    by (simp only: settings_identical_iff)
qed

theorem settings_broadcast_consistency_witness:
  "apply_mutation DoToggleLink example_module = Inr (ToggleLink example_module)
   \<and> ToggleLink example_module \<in> set (states_after [DoToggleLink, DoSetMonitorMode 3] example_module)
   \<and> (5::nat) < kNumEngines
   \<and> ui_settings (engine example_module 5) \<noteq> ui_settings (engine example_module 0)
   \<and> ui_settings (engine (ToggleLink example_module) 5) = ui_settings (engine (ToggleLink example_module) 0)"
proof -
  note th = settings_broadcast_consistency [of DoToggleLink example_module "ToggleLink example_module"
      "[DoToggleLink, DoSetMonitorMode 3]"]
  have a: "apply_mutation DoToggleLink example_module = Inr (ToggleLink example_module)"
    by simp
  have b: "ToggleLink example_module \<in> set (states_after [DoToggleLink, DoSetMonitorMode 3] example_module)"
    by simp
  have c: "(5::nat) < kNumEngines"
    by (simp add: kNumEngines_def)
  have d: "ui_settings (engine example_module 5) \<noteq> ui_settings (engine example_module 0)"
    by (simp add: example_module_def voice0_def voice_other_def ui_settings_def)
  from th [THEN conjunct1, THEN mp, OF a, THEN spec, THEN mp, OF c]
    th [THEN conjunct2, THEN bspec, OF b, THEN spec, THEN mp, OF c] a b c d
  show ?thesis by (intro conjI)
qed

lemma voice_body_step:
  assumes "voice_body Process h c st frame = Inr (st', frame')"
  shows "engine st' = (engine st)(nat c := fst (Process (engine st (nat c)) (voice_frame h c frame)))
    \<and> frame' = snd (Process (engine st (nat c)) (voice_frame h c frame))
    \<and> output_voltages st' = (output_voltages st)
        (CH1_SIGNAL_OUTPUT := (output_voltages st CH1_SIGNAL_OUTPUT)(c := signal_out (ch1 frame')),
         CH2_SIGNAL_OUTPUT := (output_voltages st CH2_SIGNAL_OUTPUT)(c := signal_out (ch2 frame')))"
proof -
  obtain e frame2 where p: "Process (engine st (nat c)) (voice_frame h c frame) = (e, frame2)"
    by (cases "Process (engine st (nat c)) (voice_frame h c frame)")
  have c: "0 \<le> c \<and> c < int kNumEngines"
    using voice_body_frame [OF assms] by simp
  let ?st3 = "st\<lparr>engine := (engine st)(nat c := e),
        output_voltages := (output_voltages st)
          (CH1_SIGNAL_OUTPUT := (output_voltages st CH1_SIGNAL_OUTPUT)(c := signal_out (ch1 frame2)),
           CH2_SIGNAL_OUTPUT := (output_voltages st CH2_SIGNAL_OUTPUT)(c := signal_out (ch2 frame2)))\<rparr>"
  have "\<exists>tbl. st' = ?st3\<lparr>brightness := tbl\<rparr> \<and> frame' = frame2"
  proof (cases "lights_updated frame2")
    case False
    have v: "voice_body Process h c st frame = Inr (?st3, frame2)"
      using c False by (simp add: voice_body_def Let_def p)
    note eg = assms [unfolded v sum.inject prod.inject]
    have "st' = ?st3\<lparr>brightness := brightness st\<rparr>"
      unfolding eg [THEN conjunct1, symmetric] by simp
    with eg show ?thesis by blast
  next
    case True
    have v: "voice_body Process h c st frame =
      (case store_leds (frame_leds frame2) (nat c) (brightness st) of
         Inl err \<Rightarrow> Inl err
       | Inr tbl \<Rightarrow> Inr (?st3\<lparr>brightness := tbl\<rparr>, frame2))"
      using c True by (simp add: voice_body_def Let_def p cong: sum.case_cong)
    obtain tbl where t: "store_leds (frame_leds frame2) (nat c) (brightness st) = Inr tbl"
      using assms unfolding v by (cases "store_leds (frame_leds frame2) (nat c) (brightness st)") simp_all
    note eg = assms [unfolded v t sum.case sum.inject prod.inject]
    then show ?thesis by blast
  qed
  then obtain tbl where e: "st' = ?st3\<lparr>brightness := tbl\<rparr>" and g: "frame' = frame2"
    by blast
  show ?thesis by (simp add: e g p)
qed

lemma voices_loop_steps:
  assumes "voices_loop Process h cs (st, frame, updated) = Inr (st', frame', updated')"
    and "distinct cs"
  shows "(\<forall>c\<in>set cs. \<exists>f.
        engine st' (nat c) = fst (Process (engine st (nat c)) (voice_frame h c f))
        \<and> output_voltages st' CH1_SIGNAL_OUTPUT c
            = signal_out (ch1 (snd (Process (engine st (nat c)) (voice_frame h c f))))
        \<and> output_voltages st' CH2_SIGNAL_OUTPUT c
            = signal_out (ch2 (snd (Process (engine st (nat c)) (voice_frame h c f)))))
    \<and> (\<forall>i. i \<notin> nat ` set cs \<longrightarrow> engine st' i = engine st i)
    \<and> (\<forall>out c. c \<notin> set cs \<longrightarrow> output_voltages st' out c = output_voltages st out c)"
  using assms
proof (induction cs arbitrary: st frame updated)
  case Nil
  then show ?case by simp
next
  case (Cons c cs)
  from Cons.prems(1) obtain st1 frame1 where
    b: "voice_body Process h c st frame = Inr (st1, frame1)"
    and l: "voices_loop Process h cs (st1, frame1, updated \<or> lights_updated frame1) = Inr (st', frame', updated')"
    by (auto split: sum.splits)
  have d: "distinct cs" and n: "c \<notin> set cs" using Cons.prems(2) by simp_all
  note s = voice_body_step [OF b]
  note ih = Cons.IH [OF l d]
  have c0: "0 \<le> c" using voice_body_frame [OF b] by simp
  have cs0: "\<forall>c'\<in>set cs. 0 \<le> c'" using voices_loop_frame [OF l] by blast
  have ni: "nat c \<notin> nat ` set cs"
  proof
    assume "nat c \<in> nat ` set cs"
    then obtain c' where "c' \<in> set cs" "nat c = nat c'" by blast
    with c0 cs0 have "c = c'" by (metis nat_eq_iff2)
    with \<open>c' \<in> set cs\<close> n show False by simp
  qed
  let ?r = "Process (engine st (nat c)) (voice_frame h c frame)"
  have e1: "engine st1 = (engine st)(nat c := fst ?r)" and f1: "frame1 = snd ?r"
    and o1: "output_voltages st1 = (output_voltages st)
        (CH1_SIGNAL_OUTPUT := (output_voltages st CH1_SIGNAL_OUTPUT)(c := signal_out (ch1 frame1)),
         CH2_SIGNAL_OUTPUT := (output_voltages st CH2_SIGNAL_OUTPUT)(c := signal_out (ch2 frame1)))"
    using s by simp_all
  have head: "engine st' (nat c) = fst ?r
        \<and> output_voltages st' CH1_SIGNAL_OUTPUT c = signal_out (ch1 (snd ?r))
        \<and> output_voltages st' CH2_SIGNAL_OUTPUT c = signal_out (ch2 (snd ?r))"
  proof -
    have "engine st' (nat c) = engine st1 (nat c)" using ih ni by blast
    moreover have "output_voltages st' CH1_SIGNAL_OUTPUT c = output_voltages st1 CH1_SIGNAL_OUTPUT c"
      "output_voltages st' CH2_SIGNAL_OUTPUT c = output_voltages st1 CH2_SIGNAL_OUTPUT c"
      using ih n by blast+
    ultimately show ?thesis by (simp add: e1 o1 f1)
  qed
  have tail: "\<forall>c'\<in>set cs. \<exists>f.
        engine st' (nat c') = fst (Process (engine st (nat c')) (voice_frame h c' f))
        \<and> output_voltages st' CH1_SIGNAL_OUTPUT c'
            = signal_out (ch1 (snd (Process (engine st (nat c')) (voice_frame h c' f))))
        \<and> output_voltages st' CH2_SIGNAL_OUTPUT c'
            = signal_out (ch2 (snd (Process (engine st (nat c')) (voice_frame h c' f))))"
  proof
    fix c' assume m: "c' \<in> set cs"
    have "nat c' \<noteq> nat c"
    proof
      assume "nat c' = nat c"
      with m have "nat c \<in> nat ` set cs" by (metis imageI)
      with ni show False by simp
    qed
    then have "engine st1 (nat c') = engine st (nat c')" by (simp add: e1)
    with ih m show "\<exists>f.
        engine st' (nat c') = fst (Process (engine st (nat c')) (voice_frame h c' f))
        \<and> output_voltages st' CH1_SIGNAL_OUTPUT c'
            = signal_out (ch1 (snd (Process (engine st (nat c')) (voice_frame h c' f))))
        \<and> output_voltages st' CH2_SIGNAL_OUTPUT c'
            = signal_out (ch2 (snd (Process (engine st (nat c')) (voice_frame h c' f))))"
      by (metis (no_types, lifting))
  qed
  have rest_e: "\<forall>i. i \<notin> nat ` set (c # cs) \<longrightarrow> engine st' i = engine st i"
  proof (intro allI impI)
    fix i assume "i \<notin> nat ` set (c # cs)"
    then have "i \<noteq> nat c" "i \<notin> nat ` set cs" by auto
    then have "engine st' i = engine st1 i" "engine st1 i = engine st i"
      using ih by (simp_all add: e1)
    then show "engine st' i = engine st i" by simp
  qed
  have rest_o: "\<forall>out c'. c' \<notin> set (c # cs) \<longrightarrow> output_voltages st' out c' = output_voltages st out c'"
  proof (intro allI impI)
    fix out c' assume "c' \<notin> set (c # cs)"
    then have "c' \<noteq> c" "c' \<notin> set cs" by auto
    then have "output_voltages st' out c' = output_voltages st1 out c'"
      "output_voltages st1 out c' = output_voltages st out c'"
      using ih by (simp_all add: o1)
    then show "output_voltages st' out c' = output_voltages st out c'" by simp
  qed
  from head tail rest_e rest_o show ?case by (simp only: list.set ball_simps) blast
qed

lemma process_voices:
  assumes "process Process h frame0 st = Inr st'"
  shows "\<exists>st1. polyphony_step (num_channels h) st = Inr st1
    \<and> (\<forall>c<nat (num_channels h). \<exists>f.
          engine st' c = fst (Process (engine st1 c) (voice_frame h (int c) f))
          \<and> output_voltages st' CH1_SIGNAL_OUTPUT (int c)
              = signal_out (ch1 (snd (Process (engine st1 c) (voice_frame h (int c) f))))
          \<and> output_voltages st' CH2_SIGNAL_OUTPUT (int c)
              = signal_out (ch2 (snd (Process (engine st1 c) (voice_frame h (int c) f)))))
    \<and> (\<forall>c. \<not> c < nat (num_channels h) \<longrightarrow> engine st' c = engine st1 c)
    \<and> (\<forall>out c. \<not> (0 \<le> c \<and> c < num_channels h) \<longrightarrow>
          output_voltages st' out c = output_voltages st out c)"
proof -
  let ?n = "num_channels h"
  from process_Inr_D [OF assms] obtain st1 st2 frame updated where
    p: "polyphony_step ?n st = Inr st1"
    and v: "voices_loop Process h [0..?n - 1] (st1, shared_frame h frame0, False) = Inr (st2, frame, updated)"
    and d: "(if updated
        then drive_lights [0..<NUM_LIGHTS] ?n
          (st2\<lparr>output_channels := (output_channels st2)
              (CH1_SIGNAL_OUTPUT := ?n, CH2_SIGNAL_OUTPUT := ?n)\<rparr>)
        else Inr (st2\<lparr>output_channels := (output_channels st2)
              (CH1_SIGNAL_OUTPUT := ?n, CH2_SIGNAL_OUTPUT := ?n)\<rparr>)) = Inr st'"
    by blast
  have b: "\<forall>c\<in>set [0..?n - 1]. 0 \<le> c \<and> c < int kNumEngines"
    using voices_loop_frame [OF v] by blast
  have l: "\<forall>i\<in>set [0..<NUM_LIGHTS]. i < NUM_LIGHTS" by simp
  have same: "engine st' = engine st2 \<and> output_voltages st' = output_voltages st2"
  proof (cases updated)
    case True
    with d show ?thesis by (auto simp: drive_lights_Inr [OF l b] simp del: set_upto)
  next
    case False
    with d show ?thesis by auto
  qed
  have "distinct [0..?n - 1]" by simp
  note s = voices_loop_steps [OF v this]
  have o1: "output_voltages st1 = output_voltages st"
    using polyphony_step_frame [OF p] by simp
  have a: "\<forall>c<nat ?n. \<exists>f.
          engine st' c = fst (Process (engine st1 c) (voice_frame h (int c) f))
          \<and> output_voltages st' CH1_SIGNAL_OUTPUT (int c)
              = signal_out (ch1 (snd (Process (engine st1 c) (voice_frame h (int c) f))))
          \<and> output_voltages st' CH2_SIGNAL_OUTPUT (int c)
              = signal_out (ch2 (snd (Process (engine st1 c) (voice_frame h (int c) f))))"
  proof (intro allI impI)
    fix c :: nat assume "c < nat ?n"
    then have "int c \<in> set [0..?n - 1]" by simp
    with s have "\<exists>f.
        engine st2 (nat (int c)) = fst (Process (engine st1 (nat (int c))) (voice_frame h (int c) f))
        \<and> output_voltages st2 CH1_SIGNAL_OUTPUT (int c)
            = signal_out (ch1 (snd (Process (engine st1 (nat (int c))) (voice_frame h (int c) f))))
        \<and> output_voltages st2 CH2_SIGNAL_OUTPUT (int c)
            = signal_out (ch2 (snd (Process (engine st1 (nat (int c))) (voice_frame h (int c) f))))"
      by blast
    then show "\<exists>f.
          engine st' c = fst (Process (engine st1 c) (voice_frame h (int c) f))
          \<and> output_voltages st' CH1_SIGNAL_OUTPUT (int c)
              = signal_out (ch1 (snd (Process (engine st1 c) (voice_frame h (int c) f))))
          \<and> output_voltages st' CH2_SIGNAL_OUTPUT (int c)
              = signal_out (ch2 (snd (Process (engine st1 c) (voice_frame h (int c) f))))"
      by (simp add: same)
  qed
  have e: "\<forall>c. \<not> c < nat ?n \<longrightarrow> engine st' c = engine st1 c"
  proof (intro allI impI)
    fix c :: nat assume c: "\<not> c < nat ?n"
    have "c \<notin> nat ` set [0..?n - 1]"
    proof
      assume "c \<in> nat ` set [0..?n - 1]"
      then obtain x where "0 \<le> x" "x \<le> ?n - 1" "c = nat x" by auto
      then have "c < nat ?n" by simp
      with c show False by simp
    qed
    with s show "engine st' c = engine st1 c" by (simp add: same del: set_upto)
  qed
  have o: "\<forall>out c. \<not> (0 \<le> c \<and> c < ?n) \<longrightarrow> output_voltages st' out c = output_voltages st out c"
  proof (intro allI impI)
    fix out and c :: int assume "\<not> (0 \<le> c \<and> c < ?n)"
    then have "c \<notin> set [0..?n - 1]" by auto
    with s have "output_voltages st2 out c = output_voltages st1 out c" by blast
    then show "output_voltages st' out c = output_voltages st out c" by (simp add: same o1)
  qed
  from p a e o show ?thesis by blast
qed

lemma example_host_channels: "num_channels example_host = 2"
  by (simp add: num_channels_def example_host_def)

lemma example_process_Inr: "\<exists>st'. process Process example_host example_frame example_module = Inr st'"
  by (rule process_Inr) (simp_all add: example_host_channels kNumEngines_def example_module_def)

text \<open>
  C2, as the claim states it, fails: the voice count is the maximum of the two channel
  counts and 1, with no upper limit. A host that reports 17 channels on the first signal
  input gives a count of 17.
\<close>

theorem voice_count_above_sixteen_counterexample:
  "\<not> (1 \<le> num_channels host_17 \<and> num_channels host_17 \<le> 16)"
  by (simp add: num_channels_def host_17_def)

text \<open>
  C2, amended. The voice count of a cycle is the larger of the two signal inputs' channel
  counts, raised to 1, with no upper limit: it is at least 1 whatever the host reports, and
  it is at most 16 exactly when both reported counts are. In a cycle that stays inside the
  arrays the count \<open>n\<close> is at most 16 and this one count is used throughout: the engines
  stepped by \<open>Process\<close>, and the output voltages written, are exactly those of the voices
  \<open>0 \<le> c < n\<close> (every other engine is as the polyphony step left it, every other voltage
  as before); \<open>n\<close> is the channel count set on both outputs and the new
  \<open>prev_num_channels_\<close>; and when a voice reports, each light is the maximum over the
  voices \<open>0 \<le> c < n\<close> of \<open>brightness_\<close>, otherwise the lights are kept.
\<close>

theorem voice_count_floor_without_ceiling:
  "1 \<le> num_channels h
   \<and> getChannels h CH1_SIGNAL_INPUT \<le> num_channels h
   \<and> getChannels h CH2_SIGNAL_INPUT \<le> num_channels h
   \<and> num_channels h \<in> {getChannels h CH1_SIGNAL_INPUT, getChannels h CH2_SIGNAL_INPUT, 1}
   \<and> (num_channels h \<le> 16) = (getChannels h CH1_SIGNAL_INPUT \<le> 16 \<and> getChannels h CH2_SIGNAL_INPUT \<le> 16)
   \<and> (process Process h frame0 st = Inr st' \<longrightarrow>
        num_channels h \<le> 16
        \<and> (\<exists>st1. polyphony_step (num_channels h) st = Inr st1
              \<and> (\<forall>c<nat (num_channels h). \<exists>f.
                    engine st' c = fst (Process (engine st1 c) (voice_frame h (int c) f))
                    \<and> output_voltages st' CH1_SIGNAL_OUTPUT (int c)
                        = signal_out (ch1 (snd (Process (engine st1 c) (voice_frame h (int c) f))))
                    \<and> output_voltages st' CH2_SIGNAL_OUTPUT (int c)
                        = signal_out (ch2 (snd (Process (engine st1 c) (voice_frame h (int c) f)))))
              \<and> (\<forall>c. \<not> c < nat (num_channels h) \<longrightarrow> engine st' c = engine st1 c))
        \<and> (\<forall>out c. \<not> (0 \<le> c \<and> c < num_channels h) \<longrightarrow>
              output_voltages st' out c = output_voltages st out c)
        \<and> length (process_reports Process h frame0 st) = nat (num_channels h)
        \<and> output_channels st' CH1_SIGNAL_OUTPUT = num_channels h
        \<and> output_channels st' CH2_SIGNAL_OUTPUT = num_channels h
        \<and> prev_num_channels st' = num_channels h
        \<and> lights st' = (if True \<in> set (process_reports Process h frame0 st)
            then (\<lambda>i. if i < NUM_LIGHTS
              then Max (insert 0 (brightness st' i ` {0..<nat (num_channels h)})) else lights st i)
            else lights st))"
proof -
  have "1 \<le> num_channels h
   \<and> getChannels h CH1_SIGNAL_INPUT \<le> num_channels h
   \<and> getChannels h CH2_SIGNAL_INPUT \<le> num_channels h
   \<and> num_channels h \<in> {getChannels h CH1_SIGNAL_INPUT, getChannels h CH2_SIGNAL_INPUT, 1}
   \<and> (num_channels h \<le> 16) = (getChannels h CH1_SIGNAL_INPUT \<le> 16 \<and> getChannels h CH2_SIGNAL_INPUT \<le> 16)"
    unfolding num_channels_def by auto
  moreover have "process Process h frame0 st = Inr st' \<longrightarrow>
        num_channels h \<le> 16
        \<and> (\<exists>st1. polyphony_step (num_channels h) st = Inr st1
              \<and> (\<forall>c<nat (num_channels h). \<exists>f.
                    engine st' c = fst (Process (engine st1 c) (voice_frame h (int c) f))
                    \<and> output_voltages st' CH1_SIGNAL_OUTPUT (int c)
                        = signal_out (ch1 (snd (Process (engine st1 c) (voice_frame h (int c) f))))
                    \<and> output_voltages st' CH2_SIGNAL_OUTPUT (int c)
                        = signal_out (ch2 (snd (Process (engine st1 c) (voice_frame h (int c) f)))))
              \<and> (\<forall>c. \<not> c < nat (num_channels h) \<longrightarrow> engine st' c = engine st1 c))
        \<and> (\<forall>out c. \<not> (0 \<le> c \<and> c < num_channels h) \<longrightarrow>
              output_voltages st' out c = output_voltages st out c)
        \<and> length (process_reports Process h frame0 st) = nat (num_channels h)
        \<and> output_channels st' CH1_SIGNAL_OUTPUT = num_channels h
        \<and> output_channels st' CH2_SIGNAL_OUTPUT = num_channels h
        \<and> prev_num_channels st' = num_channels h
        \<and> lights st' = (if True \<in> set (process_reports Process h frame0 st)
            then (\<lambda>i. if i < NUM_LIGHTS
              then Max (insert 0 (brightness st' i ` {0..<nat (num_channels h)})) else lights st i)
            else lights st)"
  proof
    assume p: "process Process h frame0 st = Inr st'"
    note l = process_lights [OF p]
    have n: "num_channels h \<le> 16"
      using l by (simp add: kNumEngines_def)
    from process_voices [OF p] obtain st1 where
      s1: "polyphony_step (num_channels h) st = Inr st1"
      and s2: "\<forall>c<nat (num_channels h). \<exists>f.
                    engine st' c = fst (Process (engine st1 c) (voice_frame h (int c) f))
                    \<and> output_voltages st' CH1_SIGNAL_OUTPUT (int c)
                        = signal_out (ch1 (snd (Process (engine st1 c) (voice_frame h (int c) f))))
                    \<and> output_voltages st' CH2_SIGNAL_OUTPUT (int c)
                        = signal_out (ch2 (snd (Process (engine st1 c) (voice_frame h (int c) f))))"
      and s3: "\<forall>c. \<not> c < nat (num_channels h) \<longrightarrow> engine st' c = engine st1 c"
      and s4: "\<forall>out c. \<not> (0 \<le> c \<and> c < num_channels h) \<longrightarrow>
              output_voltages st' out c = output_voltages st out c"
      by blast
    from s1 s2 s3 have v: "\<exists>st1. polyphony_step (num_channels h) st = Inr st1
              \<and> (\<forall>c<nat (num_channels h). \<exists>f.
                    engine st' c = fst (Process (engine st1 c) (voice_frame h (int c) f))
                    \<and> output_voltages st' CH1_SIGNAL_OUTPUT (int c)
                        = signal_out (ch1 (snd (Process (engine st1 c) (voice_frame h (int c) f))))
                    \<and> output_voltages st' CH2_SIGNAL_OUTPUT (int c)
                        = signal_out (ch2 (snd (Process (engine st1 c) (voice_frame h (int c) f)))))
              \<and> (\<forall>c. \<not> c < nat (num_channels h) \<longrightarrow> engine st' c = engine st1 c)"
      by blast
    note r = process_reports_length [OF p]
    note o1 = l [THEN conjunct2, THEN conjunct1]
      and o2 = l [THEN conjunct2, THEN conjunct2, THEN conjunct1]
      and o3 = l [THEN conjunct2, THEN conjunct2, THEN conjunct2, THEN conjunct1]
      and o4 = l [THEN conjunct2, THEN conjunct2, THEN conjunct2, THEN conjunct2]
    from n v s4 r o1 o2 o3 o4
    show "num_channels h \<le> 16
        \<and> (\<exists>st1. polyphony_step (num_channels h) st = Inr st1
              \<and> (\<forall>c<nat (num_channels h). \<exists>f.
                    engine st' c = fst (Process (engine st1 c) (voice_frame h (int c) f))
                    \<and> output_voltages st' CH1_SIGNAL_OUTPUT (int c)
                        = signal_out (ch1 (snd (Process (engine st1 c) (voice_frame h (int c) f))))
                    \<and> output_voltages st' CH2_SIGNAL_OUTPUT (int c)
                        = signal_out (ch2 (snd (Process (engine st1 c) (voice_frame h (int c) f)))))
              \<and> (\<forall>c. \<not> c < nat (num_channels h) \<longrightarrow> engine st' c = engine st1 c))
        \<and> (\<forall>out c. \<not> (0 \<le> c \<and> c < num_channels h) \<longrightarrow>
              output_voltages st' out c = output_voltages st out c)
        \<and> length (process_reports Process h frame0 st) = nat (num_channels h)
        \<and> output_channels st' CH1_SIGNAL_OUTPUT = num_channels h
        \<and> output_channels st' CH2_SIGNAL_OUTPUT = num_channels h
        \<and> prev_num_channels st' = num_channels h
        \<and> lights st' = (if True \<in> set (process_reports Process h frame0 st)
            then (\<lambda>i. if i < NUM_LIGHTS
              then Max (insert 0 (brightness st' i ` {0..<nat (num_channels h)})) else lights st i)
            else lights st)"
      by (intro conjI)
  qed
  ultimately show ?thesis by blast
qed

theorem voice_count_floor_without_ceiling_witness:
  "\<exists>st'. process lit_when_excited example_host example_frame example_module = Inr st'
    \<and> num_channels example_host = 2
    \<and> (1::nat) < nat (num_channels example_host)
    \<and> \<not> (0 \<le> (2::int) \<and> 2 < num_channels example_host)
    \<and> output_voltages example_module CH1_SIGNAL_OUTPUT 1 = 0
    \<and> output_voltages st' CH1_SIGNAL_OUTPUT 1 = 3
    \<and> output_voltages st' CH1_SIGNAL_OUTPUT 2 = 0
    \<and> length (process_reports lit_when_excited example_host example_frame example_module) = 2
    \<and> output_channels st' CH1_SIGNAL_OUTPUT = 2
    \<and> output_channels st' CH2_SIGNAL_OUTPUT = 2
    \<and> prev_num_channels st' = 2"
proof -
  from example_process_Inr obtain st' where
    p: "process lit_when_excited example_host example_frame example_module = Inr st'"
    by blast
  note th = voice_count_floor_without_ceiling [of example_host lit_when_excited example_frame example_module st',
      THEN conjunct2, THEN conjunct2, THEN conjunct2, THEN conjunct2, THEN conjunct2, THEN mp, OF p]
  have c1: "(1::nat) < nat (num_channels example_host)"
    by (simp add: example_host_channels)
  have c2: "\<not> (0 \<le> (2::int) \<and> 2 < num_channels example_host)"
    by (simp add: example_host_channels)
  from th [THEN conjunct2, THEN conjunct1] obtain st1 where
    s1: "polyphony_step (num_channels example_host) example_module = Inr st1"
    and v: "\<forall>c<nat (num_channels example_host). \<exists>f.
          engine st' c = fst (lit_when_excited (engine st1 c) (voice_frame example_host (int c) f))
          \<and> output_voltages st' CH1_SIGNAL_OUTPUT (int c)
              = signal_out (ch1 (snd (lit_when_excited (engine st1 c) (voice_frame example_host (int c) f))))
          \<and> output_voltages st' CH2_SIGNAL_OUTPUT (int c)
              = signal_out (ch2 (snd (lit_when_excited (engine st1 c) (voice_frame example_host (int c) f))))"
    and e: "\<forall>c. \<not> c < nat (num_channels example_host) \<longrightarrow> engine st' c = engine st1 c"
    by (elim exE conjE) (rule that)
  from v [THEN spec, THEN mp, OF c1] obtain f where
    "output_voltages st' CH1_SIGNAL_OUTPUT (int 1)
      = signal_out (ch1 (snd (lit_when_excited (engine st1 1) (voice_frame example_host (int 1) f))))"
    by blast
  then have o1: "output_voltages st' CH1_SIGNAL_OUTPUT 1 = 3"
    by (simp add: lit_when_excited_def voice_frame_def example_host_def)
  from th [THEN conjunct2, THEN conjunct2, THEN conjunct1, THEN spec, THEN spec, THEN mp, OF c2]
  have o2: "output_voltages st' CH1_SIGNAL_OUTPUT 2 = 0"
    by (simp add: example_module_def)
  have o0: "output_voltages example_module CH1_SIGNAL_OUTPUT 1 = 0"
    by (simp add: example_module_def)
  from th [THEN conjunct2, THEN conjunct2, THEN conjunct2]
  have r: "length (process_reports lit_when_excited example_host example_frame example_module) = 2
    \<and> output_channels st' CH1_SIGNAL_OUTPUT = 2
    \<and> output_channels st' CH2_SIGNAL_OUTPUT = 2
    \<and> prev_num_channels st' = 2"
    by (simp add: example_host_channels)
  from p example_host_channels c1 c2 o0 o1 o2 r show ?thesis by blast
qed

text \<open>
  C3. Loading the object that \<open>dataToJson\<close> saves gives the saved settings back, on every
  voice; loading an object without any of the six keys gives, on every voice, the settings
  in which every field is zero, which is what \<open>UiSettings settings = {}\<close> starts from.
\<close>

theorem persistence_round_trip:
  fixes s :: "'w::len word UiSettings" and st st2 :: "('w word, 'd) Streams"
  shows "settings_from_json (settings_to_json s) = s
    \<and> (\<forall>c<kNumEngines. ui_settings (engine (dataFromJson (settings_to_json s) st) c) = s)
    \<and> (\<forall>c<kNumEngines.
          ui_settings (engine (dataFromJson (dataToJson st) st2) c) = ui_settings (engine st 0))
    \<and> (\<forall>c<kNumEngines.
          ui_settings (engine (dataFromJson Map.empty st) c)
            = \<lparr>func = (0, 0), alternate = (0, 0), monitor_mode = 0, linked = 0\<rparr>)"
proof (intro conjI allI impI)
  show "settings_from_json (settings_to_json s) = s"
    by (rule settings_round_trip)
next
  fix c assume "c < kNumEngines"
  then show "ui_settings (engine (dataFromJson (settings_to_json s) st) c) = s"
    by (simp only: dataFromJson_def ui_settings_broadcast settings_round_trip)
next
  fix c assume "c < kNumEngines"
  then show "ui_settings (engine (dataFromJson (dataToJson st) st2) c) = ui_settings (engine st 0)"
    by (simp only: dataFromJson_def dataToJson_def ui_settings_broadcast settings_round_trip)
next
  fix c assume "c < kNumEngines"
  then have "ui_settings (engine (dataFromJson Map.empty st) c) = (UiSettings_zero :: 'w word UiSettings)"
    by (simp only: dataFromJson_def ui_settings_broadcast settings_from_empty)
  then show "ui_settings (engine (dataFromJson Map.empty st) c)
            = \<lparr>func = (0, 0), alternate = (0, 0), monitor_mode = 0, linked = 0\<rparr>"
    by (simp only: UiSettings_zero_def)
qed

theorem persistence_round_trip_witness:
  "(7::nat) < kNumEngines
    \<and> ui_settings (engine example_module 7) \<noteq> ui_settings (engine example_lorenz 0)
    \<and> ui_settings (engine (dataFromJson (dataToJson example_lorenz) example_module) 7)
        = ui_settings (engine example_lorenz 0)
    \<and> func (ui_settings (engine (dataFromJson (dataToJson example_lorenz) example_module) 7)) = (0, 5)
    \<and> ui_settings (engine (dataFromJson Map.empty example_module) 7)
        = \<lparr>func = (0, 0), alternate = (0, 0), monitor_mode = 0, linked = 0\<rparr>"
proof -
  note th = persistence_round_trip [of "ui_settings (engine example_lorenz 0)" example_lorenz example_module]
  have c: "(7::nat) < kNumEngines"
    by (simp add: kNumEngines_def)
  have l: "ui_settings (engine example_lorenz 0)
      = \<lparr>func = (0, 5), alternate = (0, 0), monitor_mode = 2, linked = 0\<rparr>"
    by (simp only: example_lorenz_def ui_settings_broadcast kNumEngines_pos)
  have d: "ui_settings (engine example_module 7) \<noteq> ui_settings (engine example_lorenz 0)"
    unfolding l by (simp add: example_module_def voice_other_def ui_settings_def)
  have r: "ui_settings (engine (dataFromJson (dataToJson example_lorenz) example_module) 7)
        = ui_settings (engine example_lorenz 0)"
    by (rule th [THEN conjunct2, THEN conjunct2, THEN conjunct1, THEN spec, THEN mp, OF c])
  have f: "func (ui_settings (engine (dataFromJson (dataToJson example_lorenz) example_module) 7)) = (0, 5)"
    unfolding r l by simp
  have e: "ui_settings (engine (dataFromJson Map.empty example_module) 7)
        = \<lparr>func = (0, 0), alternate = (0, 0), monitor_mode = 0, linked = 0\<rparr>"
    by (rule persistence_round_trip [of "ui_settings (engine example_lorenz 0)" example_module example_module,
          THEN conjunct2, THEN conjunct2, THEN conjunct2, THEN spec, THEN mp, OF c])
  from c d r f e show ?thesis by (intro conjI)
qed

text \<open>
  C4. When the voice count \<open>n\<close> of a cycle exceeds the previous count \<open>k\<close> (both being
  voice counts: \<open>1 \<le> k\<close> and \<open>n \<le> 16\<close>), the polyphony step replaces each engine \<open>c\<close> with
  \<open>k \<le> c < n\<close> by its \<open>SyncUI\<close> from voice 0, so that its settings are those of voice 0; it
  leaves voice 0 and every other engine as they were and records \<open>n\<close>.
\<close>

theorem growth_syncs_new_voices:
  assumes "prev_num_channels st < n" and "1 \<le> prev_num_channels st" and "n \<le> int kNumEngines"
  shows "\<exists>st'. polyphony_step n st = Inr st'
    \<and> prev_num_channels st' = n
    \<and> engine st' 0 = engine st 0
    \<and> (\<forall>c. prev_num_channels st \<le> int c \<and> int c < n \<longrightarrow>
          engine st' c = SyncUI (engine st 0) (engine st c)
          \<and> ui_settings (engine st' c) = ui_settings (engine st' 0))
    \<and> (\<forall>c. \<not> (prev_num_channels st \<le> int c \<and> int c < n) \<longrightarrow> engine st' c = engine st c)"
proof -
  have k: "0 \<le> prev_num_channels st" using assms(2) by simp
  let ?st' = "st\<lparr>engine := (\<lambda>i. if int i \<in> {prev_num_channels st..<n}
                            then SyncUI (engine st 0) (engine st i) else engine st i),
            prev_num_channels := n\<rparr>"
  have p: "polyphony_step n st = Inr ?st'"
    by (rule polyphony_step_grow [OF assms(1) k assms(3)])
  have z: "engine ?st' 0 = engine st 0"
    using assms(2) by simp
  have "prev_num_channels ?st' = n" by simp
  moreover have "\<forall>c. prev_num_channels st \<le> int c \<and> int c < n \<longrightarrow>
          engine ?st' c = SyncUI (engine st 0) (engine st c)
          \<and> ui_settings (engine ?st' c) = ui_settings (engine ?st' 0)"
    unfolding z by (simp add: ui_settings_SyncUI)
  moreover have "\<forall>c. \<not> (prev_num_channels st \<le> int c \<and> int c < n) \<longrightarrow> engine ?st' c = engine st c"
    by simp
  ultimately show ?thesis using p z by blast
qed

theorem growth_syncs_new_voices_witness:
  "prev_num_channels example_module < 4 \<and> 1 \<le> prev_num_channels example_module
    \<and> (4::int) \<le> int kNumEngines
    \<and> ui_settings (engine example_module 3) \<noteq> ui_settings (engine example_module 0)
    \<and> (\<exists>st'. polyphony_step 4 example_module = Inr st'
          \<and> prev_num_channels st' = 4
          \<and> ui_settings (engine st' 3) = ui_settings (engine st' 0)
          \<and> ui_settings (engine st' 3) = ui_settings voice0
          \<and> engine st' 4 = voice_other)"
proof -
  have a: "prev_num_channels example_module < 4" "1 \<le> prev_num_channels example_module"
    by (simp_all add: example_module_def)
  have b: "(4::int) \<le> int kNumEngines"
    by (simp add: kNumEngines_def)
  have d: "ui_settings (engine example_module 3) \<noteq> ui_settings (engine example_module 0)"
    by (simp add: example_module_def voice0_def voice_other_def ui_settings_def)
  from growth_syncs_new_voices [OF a b] obtain st' where
    p: "polyphony_step 4 example_module = Inr st'"
    and n: "prev_num_channels st' = 4"
    and z: "engine st' 0 = engine example_module 0"
    and s: "\<forall>c. prev_num_channels example_module \<le> int c \<and> int c < 4 \<longrightarrow>
          engine st' c = SyncUI (engine example_module 0) (engine example_module c)
          \<and> ui_settings (engine st' c) = ui_settings (engine st' 0)"
    and r: "\<forall>c. \<not> (prev_num_channels example_module \<le> int c \<and> int c < 4) \<longrightarrow>
          engine st' c = engine example_module c"
    by blast
  have "prev_num_channels example_module \<le> int 3 \<and> int 3 < 4"
    by (simp add: example_module_def)
  with s have s3: "ui_settings (engine st' 3) = ui_settings (engine st' 0)" by blast
  have "\<not> (prev_num_channels example_module \<le> int 4 \<and> int 4 < 4)" by simp
  with r have "engine st' 4 = engine example_module 4" by blast
  then have r4: "engine st' 4 = voice_other" by (simp add: example_module_def)
  have "ui_settings (engine st' 0) = ui_settings voice0"
    unfolding z by (simp add: example_module_def)
  with s3 have v: "ui_settings (engine st' 3) = ui_settings voice0" by simp
  from p n s3 v r4 have "\<exists>st'. polyphony_step 4 example_module = Inr st'
          \<and> prev_num_channels st' = 4
          \<and> ui_settings (engine st' 3) = ui_settings (engine st' 0)
          \<and> ui_settings (engine st' 3) = ui_settings voice0
          \<and> engine st' 4 = voice_other"
    by blast
  with a b d show ?thesis by (intro conjI)
qed

text \<open>
  C5. When the voice count \<open>n\<close> of a cycle is at most the previous count, the polyphony step
  only records \<open>n\<close> in \<open>prev_num_channels_\<close>: no engine is synced or reset, and the engines,
  the brightness table, the lights and the outputs are as before.
\<close>

theorem shrink_changes_only_the_count:
  assumes "n \<le> prev_num_channels st"
  shows "polyphony_step n st = Inr (st\<lparr>prev_num_channels := n\<rparr>)
    \<and> (\<forall>st'. polyphony_step n st = Inr st' \<longrightarrow>
          engine st' = engine st \<and> brightness st' = brightness st \<and> lights st' = lights st
          \<and> output_voltages st' = output_voltages st \<and> output_channels st' = output_channels st
          \<and> prev_num_channels st' = n)"
  using assms by (simp add: polyphony_step_shrink)

theorem shrink_changes_only_the_count_witness:
  "(2::int) \<le> prev_num_channels (example_module\<lparr>prev_num_channels := 4\<rparr>)
    \<and> polyphony_step 2 (example_module\<lparr>prev_num_channels := 4\<rparr>) = Inr (example_module\<lparr>prev_num_channels := 2\<rparr>)
    \<and> engine (example_module\<lparr>prev_num_channels := 2\<rparr>) 3 = voice_other"
proof -
  have a: "(2::int) \<le> prev_num_channels (example_module\<lparr>prev_num_channels := 4\<rparr>)"
    by simp
  from shrink_changes_only_the_count [OF a, THEN conjunct1]
  have "polyphony_step 2 (example_module\<lparr>prev_num_channels := 4\<rparr>) = Inr (example_module\<lparr>prev_num_channels := 2\<rparr>)"
    by simp
  moreover have "engine (example_module\<lparr>prev_num_channels := 2\<rparr>) 3 = voice_other"
    by (simp add: example_module_def)
  ultimately show ?thesis using a by (intro conjI)
qed

lemma upto_two_voices: "[0..(2::int) - 1] = [0, 1]"
  by (simp add: upto.simps)

lemma store_leds_other_rows:
  "store_leds ws c tbl = Inr tbl' \<Longrightarrow> i \<notin> LightIds_value ` fst ` set ws \<Longrightarrow> tbl' i = tbl i"
proof (induction ws arbitrary: tbl)
  case Nil
  then show ?case by simp
next
  case (Cons w ws)
  obtain l v where w: "w = (l, v)" by (cases w)
  from Cons.prems(1) obtain tbl1 where
    s: "brightness_set (LightIds_value l) c v tbl = Inr tbl1" and r: "store_leds ws c tbl1 = Inr tbl'"
    by (auto simp: w split: sum.splits)
  have "i \<noteq> LightIds_value l" "i \<notin> LightIds_value ` fst ` set ws"
    using Cons.prems(2) by (auto simp: w)
  then have "tbl' i = tbl1 i" "tbl1 i = tbl i"
    using Cons.IH [OF r] s by (auto simp: brightness_set_def split: if_splits)
  then show ?case by simp
qed

lemma store_leds_first_row:
  assumes "store_leds ((l, v) # ws) c tbl = Inr tbl'"
    and "LightIds_value l \<notin> LightIds_value ` fst ` set ws"
  shows "tbl' (LightIds_value l) = (tbl (LightIds_value l))(c := v)"
proof -
  from assms(1) obtain tbl1 where
    s: "brightness_set (LightIds_value l) c v tbl = Inr tbl1" and r: "store_leds ws c tbl1 = Inr tbl'"
    by (auto split: sum.splits)
  have "tbl' (LightIds_value l) = tbl1 (LightIds_value l)"
    by (rule store_leds_other_rows [OF r assms(2)])
  also have "\<dots> = (tbl (LightIds_value l))(c := v)"
    using s by (auto simp: brightness_set_def split: if_splits)
  finally show ?thesis .
qed

lemma frame_leds_first:
  "\<exists>ws. frame_leds frame = (CH1_LIGHT_1_G, led_green (ch1 frame) 0) # ws
    \<and> LightIds_value CH1_LIGHT_1_G \<notin> LightIds_value ` fst ` set ws"
  by (simp add: frame_leds_def)

lemma voice_body_first_light:
  assumes "voice_body Process h c st frame = Inr (st', frame')"
  shows "frame' = snd (Process (engine st (nat c)) (voice_frame h c frame))
    \<and> brightness st' 0 =
        (if lights_updated frame' then (brightness st 0)(nat c := led_green (ch1 frame') 0)
         else brightness st 0)"
proof -
  obtain e frame2 where p: "Process (engine st (nat c)) (voice_frame h c frame) = (e, frame2)"
    by (cases "Process (engine st (nat c)) (voice_frame h c frame)")
  from frame_leds_first [of frame2] obtain ws where
    f: "frame_leds frame2 = (CH1_LIGHT_1_G, led_green (ch1 frame2) 0) # ws"
    and d: "LightIds_value CH1_LIGHT_1_G \<notin> LightIds_value ` fst ` set ws"
    by blast
  have c: "0 \<le> c \<and> c < int kNumEngines"
    using voice_body_frame [OF assms] by simp
  show ?thesis
  proof (cases "lights_updated frame2")
    case False
    with assms c show ?thesis by (auto simp: voice_body_def Let_def p)
  next
    case True
    let ?st3 = "st\<lparr>engine := (engine st)(nat c := e),
          output_voltages := (output_voltages st)
            (CH1_SIGNAL_OUTPUT := (output_voltages st CH1_SIGNAL_OUTPUT)(c := signal_out (ch1 frame2)),
             CH2_SIGNAL_OUTPUT := (output_voltages st CH2_SIGNAL_OUTPUT)(c := signal_out (ch2 frame2)))\<rparr>"
    have v: "voice_body Process h c st frame =
      (case store_leds (frame_leds frame2) (nat c) (brightness st) of
         Inl err \<Rightarrow> Inl err
       | Inr tbl \<Rightarrow> Inr (?st3\<lparr>brightness := tbl\<rparr>, frame2))"
      using c True by (simp add: voice_body_def Let_def p cong: sum.case_cong)
    obtain tbl where t: "store_leds (frame_leds frame2) (nat c) (brightness st) = Inr tbl"
      using assms unfolding v by (cases "store_leds (frame_leds frame2) (nat c) (brightness st)") simp_all
    note eg = assms [unfolded v t sum.case sum.inject prod.inject]
    note e = eg [THEN conjunct1, symmetric] and g = eg [THEN conjunct2, symmetric]
    from store_leds_first_row [OF t [unfolded f] d]
    have "tbl 0 = (brightness st 0)(nat c := led_green (ch1 frame2) 0)" by simp
    then show ?thesis using True by (simp add: e g p)
  qed
qed

lemma voice_reports_constant:
  assumes "\<forall>e f. lights_updated (snd (Process e f)) = b"
  shows "voices_loop Process h cs (st, frame, updated) = Inr r \<Longrightarrow>
    set (voice_reports Process h cs st frame) \<subseteq> {b}"
proof (induction cs arbitrary: st frame updated)
  case Nil
  then show ?case by simp
next
  case (Cons c cs)
  from Cons.prems obtain st1 frame1 where
    v: "voice_body Process h c st frame = Inr (st1, frame1)"
    and l: "voices_loop Process h cs (st1, frame1, updated \<or> lights_updated frame1) = Inr r"
    by (auto split: sum.splits)
  have "lights_updated frame1 = b"
    using voice_body_first_light [OF v] assms by simp
  then show ?case using Cons.IH [OF l] by (simp add: v)
qed

lemma process_reports_constant:
  assumes "\<forall>e f. lights_updated (snd (Process e f)) = b"
    and "process Process h frame0 st = Inr st'"
  shows "(True \<in> set (process_reports Process h frame0 st)) = b"
proof -
  from process_Inr_D [OF assms(2)] obtain st1 st2 frame updated where
    p: "polyphony_step (num_channels h) st = Inr st1"
    and v: "voices_loop Process h [0..num_channels h - 1] (st1, shared_frame h frame0, False)
        = Inr (st2, frame, updated)"
    by blast
  have s: "set (process_reports Process h frame0 st) \<subseteq> {b}"
    using voice_reports_constant [OF assms(1) v] by (simp add: process_reports_def p)
  have "length (process_reports Process h frame0 st) = nat (num_channels h)"
    by (rule process_reports_length [OF assms(2)])
  then have "process_reports Process h frame0 st \<noteq> []"
    using num_channels_ge_1 [of h] by auto
  then obtain x where x: "x \<in> set (process_reports Process h frame0 st)"
    by (cases "process_reports Process h frame0 st") auto
  with s have "x = b" by blast
  with x s show ?thesis by (cases b) auto
qed

lemma process_brightness:
  assumes "process Process h frame0 st = Inr st'"
  shows "\<exists>st1 st2 frame updated.
    polyphony_step (num_channels h) st = Inr st1
    \<and> voices_loop Process h [0..num_channels h - 1] (st1, shared_frame h frame0, False)
        = Inr (st2, frame, updated)
    \<and> brightness st' = brightness st2"
proof -
  let ?n = "num_channels h"
  from process_Inr_D [OF assms] obtain st1 st2 frame updated where
    p: "polyphony_step ?n st = Inr st1"
    and v: "voices_loop Process h [0..?n - 1] (st1, shared_frame h frame0, False) = Inr (st2, frame, updated)"
    and d: "(if updated
        then drive_lights [0..<NUM_LIGHTS] ?n
          (st2\<lparr>output_channels := (output_channels st2)
              (CH1_SIGNAL_OUTPUT := ?n, CH2_SIGNAL_OUTPUT := ?n)\<rparr>)
        else Inr (st2\<lparr>output_channels := (output_channels st2)
              (CH1_SIGNAL_OUTPUT := ?n, CH2_SIGNAL_OUTPUT := ?n)\<rparr>)) = Inr st'"
    by blast
  have b: "\<forall>c\<in>set [0..?n - 1]. 0 \<le> c \<and> c < int kNumEngines"
    using voices_loop_frame [OF v] by blast
  have l: "\<forall>i\<in>set [0..<NUM_LIGHTS]. i < NUM_LIGHTS" by simp
  have "brightness st' = brightness st2"
  proof (cases updated)
    case True
    with d show ?thesis by (auto simp: drive_lights_Inr [OF l b] simp del: set_upto)
  next
    case False
    with d show ?thesis by auto
  qed
  with p v show ?thesis by blast
qed

lemma Max_single_voice:
  fixes b :: "nat \<Rightarrow> real"
  assumes "c < n" and "b c = v" and "0 \<le> v" and "\<forall>c'<n. c' \<noteq> c \<longrightarrow> b c' = 0"
  shows "Max (insert 0 (b ` {0..<n})) = v"
proof (rule Max_eqI)
  show "finite (insert 0 (b ` {0..<n}))" by simp
next
  fix y assume "y \<in> insert 0 (b ` {0..<n})"
  then consider "y = 0" | c' where "c' < n" "y = b c'" by auto
  then show "y \<le> v"
  proof cases
    case 1
    then show ?thesis using assms(3) by simp
  next
    case 2
    then show ?thesis using assms(2,3,4) by (cases "c' = c") auto
  qed
next
  show "v \<in> insert 0 (b ` {0..<n})" using assms(1,2) by auto
qed

text \<open>
  C6. In a cycle in which at least one voice reports a lights update, each of the sixteen
  lights is set to the maximum of 0 and of the intensities stored for it in \<open>brightness_\<close>
  for the voices \<open>0 \<le> c < num_channels\<close>. In particular, when one voice holds an intensity
  \<open>v \<ge> 0\<close> (1 for full intensity) and the others hold 0, the light shows \<open>v\<close>, not an average.
\<close>

theorem lights_show_maximum_over_voices:
  assumes "process Process h frame0 st = Inr st'"
    and "True \<in> set (process_reports Process h frame0 st)"
  shows "\<forall>i<NUM_LIGHTS.
    lights st' i = Max (insert 0 (brightness st' i ` {0..<nat (num_channels h)}))
    \<and> (\<forall>c v. c < nat (num_channels h) \<and> brightness st' i c = v \<and> 0 \<le> v
          \<and> (\<forall>c'<nat (num_channels h). c' \<noteq> c \<longrightarrow> brightness st' i c' = 0)
        \<longrightarrow> lights st' i = v)"
proof (intro allI impI)
  fix i assume i: "i < NUM_LIGHTS"
  have l: "lights st' i = Max (insert 0 (brightness st' i ` {0..<nat (num_channels h)}))"
    using process_lights [OF assms(1)] assms(2) i by simp
  have "\<forall>c v. c < nat (num_channels h) \<and> brightness st' i c = v \<and> 0 \<le> v
          \<and> (\<forall>c'<nat (num_channels h). c' \<noteq> c \<longrightarrow> brightness st' i c' = 0)
        \<longrightarrow> lights st' i = v"
    unfolding l by (intro allI impI Max_single_voice) blast+
  with l show "lights st' i = Max (insert 0 (brightness st' i ` {0..<nat (num_channels h)}))
    \<and> (\<forall>c v. c < nat (num_channels h) \<and> brightness st' i c = v \<and> 0 \<le> v
          \<and> (\<forall>c'<nat (num_channels h). c' \<noteq> c \<longrightarrow> brightness st' i c' = 0)
        \<longrightarrow> lights st' i = v)"
    by blast
qed

lemma lit_when_excited_reports: "\<forall>e f. lights_updated (snd (lit_when_excited e f)) = True"
  by (simp add: lit_when_excited_def)

lemma never_reports_reports: "\<forall>e f. lights_updated (snd (never_reports e f)) = False"
  by (simp add: never_reports_def)

lemma lit_voice_first_light:
  assumes "voice_body lit_when_excited example_host c st frame = Inr (st', frame')"
  shows "brightness st' 0 = (brightness st 0)(nat c := if c = 1 then 1 else 0)"
  using voice_body_first_light [OF assms]
  by (simp add: lit_when_excited_def voice_frame_def example_host_def)

lemma example_brightness:
  assumes "process lit_when_excited example_host example_frame example_module = Inr st'"
  shows "brightness st' 0 0 = 0 \<and> brightness st' 0 1 = 1"
proof -
  from process_brightness [OF assms] obtain st1 st2 frame updated where
    p: "polyphony_step (num_channels example_host) example_module = Inr st1"
    and v: "voices_loop lit_when_excited example_host [0..num_channels example_host - 1]
        (st1, shared_frame example_host example_frame, False) = Inr (st2, frame, updated)"
    and b: "brightness st' = brightness st2"
    by blast
  from v have v2: "voices_loop lit_when_excited example_host [0, 1]
        (st1, shared_frame example_host example_frame, False) = Inr (st2, frame, updated)"
    by (simp only: example_host_channels upto_two_voices)
  from v2 obtain sa fa where
    a0: "voice_body lit_when_excited example_host 0 st1 (shared_frame example_host example_frame) = Inr (sa, fa)"
    and a1: "voice_body lit_when_excited example_host 1 sa fa = Inr (st2, frame)"
    by (auto split: sum.splits)
  from lit_voice_first_light [OF a0] lit_voice_first_light [OF a1]
  show ?thesis unfolding b by simp
qed

theorem lights_show_maximum_over_voices_witness:
  "\<exists>st'. process lit_when_excited example_host example_frame example_module = Inr st'
    \<and> True \<in> set (process_reports lit_when_excited example_host example_frame example_module)
    \<and> (0::nat) < NUM_LIGHTS
    \<and> nat (num_channels example_host) = 2
    \<and> brightness st' 0 0 = 0 \<and> brightness st' 0 1 = 1
    \<and> lights example_module 0 = 1 / 2
    \<and> lights st' 0 = 1"
proof -
  from example_process_Inr obtain st' where
    p: "process lit_when_excited example_host example_frame example_module = Inr st'"
    by blast
  have r: "True \<in> set (process_reports lit_when_excited example_host example_frame example_module)"
    using process_reports_constant [OF lit_when_excited_reports p] by simp
  have i: "(0::nat) < NUM_LIGHTS"
    by (simp add: NUM_LIGHTS_def)
  have n: "nat (num_channels example_host) = 2"
    by (simp add: example_host_channels)
  note b = example_brightness [OF p]
  have s: "{0..<2::nat} = {0, 1}" by auto
  from lights_show_maximum_over_voices [OF p r, THEN spec, THEN mp, OF i, THEN conjunct1]
  have "lights st' 0 = Max (insert 0 (brightness st' 0 ` {0..<2}))"
    by (simp only: n)
  then have l: "lights st' 0 = 1"
    using b by (simp add: s)
  have o: "lights example_module 0 = 1 / 2"
    by (simp add: example_module_def)
  from p r i n b o l show ?thesis by blast
qed

text \<open>
  C7. In a cycle in which no voice reports a lights update, no light is written: every
  light keeps the value it had before the cycle.
\<close>

theorem lights_kept_without_update:
  assumes "process Process h frame0 st = Inr st'"
    and "True \<notin> set (process_reports Process h frame0 st)"
  shows "lights st' = lights st"
  using process_lights [OF assms(1)] assms(2) by simp

theorem lights_kept_without_update_witness:
  "\<exists>st'. process never_reports example_host example_frame example_module = Inr st'
    \<and> True \<notin> set (process_reports never_reports example_host example_frame example_module)
    \<and> brightness example_module 3 0 = 0
    \<and> lights st' 3 = 1 / 2"
proof -
  from example_process_Inr obtain st' where
    p: "process never_reports example_host example_frame example_module = Inr st'"
    by blast
  have r: "True \<notin> set (process_reports never_reports example_host example_frame example_module)"
    using process_reports_constant [OF never_reports_reports p] by simp
  from lights_kept_without_update [OF p r]
  have l: "lights st' 3 = 1 / 2"
    by (simp add: example_module_def)
  have b: "brightness example_module 3 0 = 0"
    by (simp add: example_module_def)
  from p r b l show ?thesis by blast
qed

lemma ToggleLink_fields:
  fixes st :: "('w::len word, 'd) Streams"
  assumes "c < kNumEngines"
  shows "linked (ui_settings (engine (ToggleLink st) c)) = linked (ui_settings (engine st 0)) XOR 1
      \<and> (linked (ui_settings (engine (ToggleLink st) c)) = 1) = (linked (ui_settings (engine st 0)) = 0)
      \<and> (linked (ui_settings (engine (ToggleLink st) c)) = 0) = (linked (ui_settings (engine st 0)) = 1)
      \<and> func (ui_settings (engine (ToggleLink st) c)) = func (ui_settings (engine st 0))
      \<and> alternate (ui_settings (engine (ToggleLink st) c)) = alternate (ui_settings (engine st 0))
      \<and> monitor_mode (ui_settings (engine (ToggleLink st) c)) = monitor_mode (ui_settings (engine st 0))"
  by (simp add: ToggleLink_settings [OF assms] xor_1_eq_1 xor_1_eq_0)

lemma SetChannelMode_fields:
  fixes st :: "('w::len word, 'd) Streams"
  assumes "c < kNumEngines" and a: "SetChannelMode channel mode_id st = Inr st1"
  shows "(\<exists>m. table_at kChannelModeTable mode_id = Inr m
        \<and> array2_get (func (ui_settings (engine st1 c))) channel
            = Inr (word_of_int (ProcessorFunction_value (mode_function m)))
        \<and> array2_get (alternate (ui_settings (engine st1 c))) channel = Inr (of_bool (mode_alternate m)))
      \<and> array2_get (func (ui_settings (engine st1 c))) (1 - channel)
          = array2_get (func (ui_settings (engine st 0))) (1 - channel)
      \<and> array2_get (alternate (ui_settings (engine st1 c))) (1 - channel)
          = array2_get (alternate (ui_settings (engine st 0))) (1 - channel)
      \<and> monitor_mode (ui_settings (engine st1 c)) = monitor_mode (ui_settings (engine st 0))
      \<and> linked (ui_settings (engine st1 c)) = linked (ui_settings (engine st 0))"
proof -
  from SetChannelMode_settings [OF a assms(1)] obtain m fs as where
    m: "table_at kChannelModeTable mode_id = Inr m"
    and fs: "array2_set (func (ui_settings (engine st 0))) channel
       (word_of_int (ProcessorFunction_value (mode_function m))) = Inr fs"
    and as: "array2_set (alternate (ui_settings (engine st 0))) channel (of_bool (mode_alternate m)) = Inr as"
    and s: "ui_settings (engine st1 c) = (ui_settings (engine st 0))\<lparr>func := fs, alternate := as\<rparr>"
    by blast
  show ?thesis
    using m array2_get_set [OF fs] array2_get_set [OF as] by (simp add: s)
qed

lemma SetMonitorMode_fields:
  fixes st :: "('w::len word, 'd) Streams"
  assumes "c < kNumEngines" and a: "SetMonitorMode mode_id st = Inr st2"
  shows "(\<exists>m. table_at kMonitorModeTable mode_id = Inr m
        \<and> monitor_mode (ui_settings (engine st2 c)) = word_of_int (MonitorMode_value (mode m)))
      \<and> func (ui_settings (engine st2 c)) = func (ui_settings (engine st 0))
      \<and> alternate (ui_settings (engine st2 c)) = alternate (ui_settings (engine st 0))
      \<and> linked (ui_settings (engine st2 c)) = linked (ui_settings (engine st 0))"
proof -
  from SetMonitorMode_settings [OF a assms(1)] obtain m where
    m: "table_at kMonitorModeTable mode_id = Inr m"
    and s: "ui_settings (engine st2 c)
      = (ui_settings (engine st 0))\<lparr>monitor_mode := word_of_int (MonitorMode_value (mode m))\<rparr>"
    by blast
  show ?thesis using m by (simp add: s)
qed

lemma ToggleLink_negation:
  fixes st :: "('w::len word, 'd) Streams"
  assumes "linked (ui_settings (engine st 0)) = 0 \<or> linked (ui_settings (engine st 0)) = 1"
  shows "Streams_linked (ToggleLink st) = (\<not> Streams_linked st)
    \<and> (linked (ui_settings (engine (ToggleLink st) 0)) = 0
        \<or> linked (ui_settings (engine (ToggleLink st) 0)) = 1)"
  using assms
  by (auto simp: Streams_linked_def ToggleLink_settings [OF kNumEngines_pos])

lemma example_linked_2_settings:
  "ui_settings (engine example_linked_2 0)
    = \<lparr>func = (0, 0), alternate = (0, 0), monitor_mode = 0, linked = 2\<rparr>"
  unfolding example_linked_2_def dataFromJson_def
  by (simp add: ui_settings_broadcast kNumEngines_pos settings_from_json_def load_field_def
      UiSettings_zero_def Let_def)

lemma example_SetChannelMode: "SetChannelMode 1 9 example_module = Inr example_lorenz"
  by (simp add: SetChannelMode_def table_at_def kChannelModeTable_def array2_set_def Let_def
      example_lorenz_def example_module_def voice0_def ui_settings_def)

lemma example_SetMonitorMode: "SetMonitorMode 3 example_module = Inr example_output"
  by (simp add: SetMonitorMode_def table_at_def kMonitorModeTable_def Let_def
      example_output_def example_module_def voice0_def ui_settings_def)

text \<open>
  C8, as the claim states it, fails for \<open>ToggleLink\<close>: \<open>linked ^= 1\<close> flips the lowest bit of
  the stored integer, which is its negation only when it holds 0 or 1. After a
  configuration with \<open>linked\<close> 2 is loaded, \<open>ToggleLink\<close> stores 3: \<open>linked()\<close> is true before
  and after, and 3 is not the complement of 2 either.
\<close>

theorem toggle_link_is_not_negation_counterexample:
  "linked (ui_settings (engine example_linked_2 0)) = 2
    \<and> linked (ui_settings (engine (ToggleLink example_linked_2) 0)) = 3
    \<and> linked (ui_settings (engine (ToggleLink example_linked_2) 0))
        \<noteq> NOT (linked (ui_settings (engine example_linked_2 0)))
    \<and> \<not> (Streams_linked (ToggleLink example_linked_2) = (\<not> Streams_linked example_linked_2))"
  by (simp add: Streams_linked_def ToggleLink_settings [OF kNumEngines_pos] example_linked_2_settings)

text \<open>
  C8, amended. Each mutator of the menu changes its own fields of the settings of voice 0
  and no other, and every voice \<open>c\<close> then holds the result. \<open>ToggleLink\<close> replaces \<open>linked\<close> by
  \<open>linked\<close> exclusive-or 1 (0 becomes 1 and 1 becomes 0), which negates \<open>linked()\<close> whenever
  \<open>linked\<close> holds 0 or 1 and then leaves it 0 or 1 again, and keeps \<open>function\<close>, \<open>alternate\<close>
  and \<open>monitor_mode\<close>. \<open>SetChannelMode(channel, mode_id)\<close> sets \<open>function[channel]\<close> and
  \<open>alternate[channel]\<close> to the function and the alternate flag of entry \<open>mode_id\<close> of the
  channel-mode table and keeps the other channel's two fields, \<open>monitor_mode\<close> and \<open>linked\<close>.
  \<open>SetMonitorMode(mode_id)\<close> sets \<open>monitor_mode\<close> to the mode of entry \<open>mode_id\<close> of the
  monitor-mode table and keeps the other fields.
\<close>

theorem mutators_change_their_target_fields:
  fixes st :: "('w::len word, 'd) Streams"
  assumes "c < kNumEngines"
  shows "(linked (ui_settings (engine (ToggleLink st) c)) = linked (ui_settings (engine st 0)) XOR 1
      \<and> (linked (ui_settings (engine (ToggleLink st) c)) = 1) = (linked (ui_settings (engine st 0)) = 0)
      \<and> (linked (ui_settings (engine (ToggleLink st) c)) = 0) = (linked (ui_settings (engine st 0)) = 1)
      \<and> func (ui_settings (engine (ToggleLink st) c)) = func (ui_settings (engine st 0))
      \<and> alternate (ui_settings (engine (ToggleLink st) c)) = alternate (ui_settings (engine st 0))
      \<and> monitor_mode (ui_settings (engine (ToggleLink st) c)) = monitor_mode (ui_settings (engine st 0)))
    \<and> (SetChannelMode channel mode_id st = Inr st1 \<longrightarrow>
      (\<exists>m. table_at kChannelModeTable mode_id = Inr m
        \<and> array2_get (func (ui_settings (engine st1 c))) channel
            = Inr (word_of_int (ProcessorFunction_value (mode_function m)))
        \<and> array2_get (alternate (ui_settings (engine st1 c))) channel = Inr (of_bool (mode_alternate m)))
      \<and> array2_get (func (ui_settings (engine st1 c))) (1 - channel)
          = array2_get (func (ui_settings (engine st 0))) (1 - channel)
      \<and> array2_get (alternate (ui_settings (engine st1 c))) (1 - channel)
          = array2_get (alternate (ui_settings (engine st 0))) (1 - channel)
      \<and> monitor_mode (ui_settings (engine st1 c)) = monitor_mode (ui_settings (engine st 0))
      \<and> linked (ui_settings (engine st1 c)) = linked (ui_settings (engine st 0)))
    \<and> (SetMonitorMode monitor_id st = Inr st2 \<longrightarrow>
      (\<exists>m. table_at kMonitorModeTable monitor_id = Inr m
        \<and> monitor_mode (ui_settings (engine st2 c)) = word_of_int (MonitorMode_value (mode m)))
      \<and> func (ui_settings (engine st2 c)) = func (ui_settings (engine st 0))
      \<and> alternate (ui_settings (engine st2 c)) = alternate (ui_settings (engine st 0))
      \<and> linked (ui_settings (engine st2 c)) = linked (ui_settings (engine st 0)))
    \<and> (linked (ui_settings (engine st 0)) = 0 \<or> linked (ui_settings (engine st 0)) = 1 \<longrightarrow>
      Streams_linked (ToggleLink st) = (\<not> Streams_linked st)
      \<and> (linked (ui_settings (engine (ToggleLink st) 0)) = 0
          \<or> linked (ui_settings (engine (ToggleLink st) 0)) = 1))"
  using ToggleLink_fields [OF assms, of st] SetChannelMode_fields [OF assms, of channel mode_id st st1]
    SetMonitorMode_fields [OF assms, of monitor_id st st2] ToggleLink_negation [of st]
  by (intro conjI impI) blast+

theorem mutators_change_their_target_fields_witness:
  "(3::nat) < kNumEngines
    \<and> linked (ui_settings (engine example_module 0)) = 0
    \<and> linked (ui_settings (engine (ToggleLink example_module) 3)) = 1
    \<and> monitor_mode (ui_settings (engine (ToggleLink example_module) 3)) = 2
    \<and> \<not> Streams_linked example_module
    \<and> Streams_linked (ToggleLink example_module)
    \<and> SetChannelMode 1 9 example_module = Inr example_lorenz
    \<and> array2_get (func (ui_settings (engine example_lorenz 3))) 1 = Inr 5
    \<and> array2_get (alternate (ui_settings (engine example_lorenz 3))) 1 = Inr 0
    \<and> array2_get (func (ui_settings (engine example_lorenz 3))) 0 = Inr 0
    \<and> linked (ui_settings (engine example_lorenz 3)) = 0
    \<and> SetMonitorMode 3 example_module = Inr example_output
    \<and> monitor_mode (ui_settings (engine example_output 3)) = 3
    \<and> func (ui_settings (engine example_output 3)) = (0, 0)"
proof -
  have c: "(3::nat) < kNumEngines"
    by (simp add: kNumEngines_def)
  note th = mutators_change_their_target_fields [OF c, of example_module 1 9 example_lorenz 3 example_output]
  have z: "ui_settings (engine example_module 0)
      = \<lparr>func = (0, 0), alternate = (0, 0), monitor_mode = 2, linked = 0\<rparr>"
    by (simp add: example_module_def voice0_def ui_settings_def)
  have t9: "table_at kChannelModeTable 9
      = Inr \<lparr>mode_function = PROCESSOR_FUNCTION_LORENZ_GENERATOR, mode_alternate = False,
          mode_label = ''Lorenz generator''\<rparr>"
    by (simp add: table_at_def kChannelModeTable_def)
  have t3: "table_at kMonitorModeTable 3 = Inr \<lparr>mode = MONITOR_MODE_OUTPUT, monitor_label = ''Out''\<rparr>"
    by (simp add: table_at_def kMonitorModeTable_def)
  from th [THEN conjunct1]
  have a: "linked (ui_settings (engine example_module 0)) = 0
    \<and> linked (ui_settings (engine (ToggleLink example_module) 3)) = 1
    \<and> monitor_mode (ui_settings (engine (ToggleLink example_module) 3)) = 2"
    by (simp add: z)
  from th [THEN conjunct2, THEN conjunct1, THEN mp, OF example_SetChannelMode]
  have b: "array2_get (func (ui_settings (engine example_lorenz 3))) 1 = Inr 5
    \<and> array2_get (alternate (ui_settings (engine example_lorenz 3))) 1 = Inr 0
    \<and> array2_get (func (ui_settings (engine example_lorenz 3))) 0 = Inr 0
    \<and> linked (ui_settings (engine example_lorenz 3)) = 0"
    by (simp add: z t9 array2_get_def)
  from th [THEN conjunct2, THEN conjunct2, THEN conjunct1, THEN mp, OF example_SetMonitorMode]
  have d: "monitor_mode (ui_settings (engine example_output 3)) = 3
    \<and> func (ui_settings (engine example_output 3)) = (0, 0)"
    by (simp add: z t3)
  have l: "linked (ui_settings (engine example_module 0)) = 0 \<or> linked (ui_settings (engine example_module 0)) = 1"
    by (simp add: z)
  have n0: "\<not> Streams_linked example_module"
    by (simp add: Streams_linked_def z)
  from th [THEN conjunct2, THEN conjunct2, THEN conjunct2, THEN mp, OF l, THEN conjunct1] n0
  have n1: "Streams_linked (ToggleLink example_module)"
    by simp
  from c a b d n0 n1 example_SetChannelMode example_SetMonitorMode show ?thesis by blast
qed

lemma error_is_OutOfBounds: "(r = Inl OutOfBounds) = (\<nexists>x. r = Inr x)"
proof (cases r)
  case (Inl e)
  then show ?thesis by (cases e) simp
next
  case (Inr x)
  then show ?thesis by simp
qed

lemma SetChannelMode_Inr_iff:
  fixes st :: "('w::len word, 'd) Streams"
  shows "(\<exists>st'. SetChannelMode channel mode_id st = Inr st')
    = (0 \<le> mode_id \<and> mode_id < kNumChannelModes \<and> (channel = 0 \<or> channel = 1))"
proof
  assume "\<exists>st'. SetChannelMode channel mode_id st = Inr st'"
  then obtain st' where a: "SetChannelMode channel mode_id st = Inr st'" by blast
  have "0 < kNumEngines" by (rule kNumEngines_pos)
  from SetChannelMode_settings [OF a this] obtain m fs where
    m: "table_at kChannelModeTable mode_id = Inr m"
    and fs: "array2_set (func (ui_settings (engine st 0))) channel
       (word_of_int (ProcessorFunction_value (mode_function m))) = Inr fs"
    by blast
  from m have "0 \<le> mode_id \<and> mode_id < kNumChannelModes"
    by (simp add: table_at_channel_mode [symmetric])
  moreover from fs have "channel = 0 \<or> channel = 1"
    by (simp add: array2_set_def split: if_splits)
  ultimately show "0 \<le> mode_id \<and> mode_id < kNumChannelModes \<and> (channel = 0 \<or> channel = 1)"
    by simp
next
  assume r: "0 \<le> mode_id \<and> mode_id < kNumChannelModes \<and> (channel = 0 \<or> channel = 1)"
  then have "\<exists>m. table_at kChannelModeTable mode_id = Inr m"
    by (simp add: table_at_channel_mode)
  then obtain m where m: "table_at kChannelModeTable mode_id = Inr m" ..
  from r have "channel = 0 \<or> channel = 1" by simp
  then show "\<exists>st'. SetChannelMode channel mode_id st = Inr st'"
  proof
    assume "channel = 0"
    then show ?thesis by (simp add: SetChannelMode_def Let_def m array2_set_def)
  next
    assume "channel = 1"
    then show ?thesis by (simp add: SetChannelMode_def Let_def m array2_set_def)
  qed
qed

lemma SetMonitorMode_Inr_iff:
  fixes st :: "('w::len word, 'd) Streams"
  shows "(\<exists>st'. SetMonitorMode mode_id st = Inr st') = (0 \<le> mode_id \<and> mode_id < kNumMonitorModes)"
proof
  assume "\<exists>st'. SetMonitorMode mode_id st = Inr st'"
  then obtain st' where a: "SetMonitorMode mode_id st = Inr st'" by blast
  have "0 < kNumEngines" by (rule kNumEngines_pos)
  from SetMonitorMode_settings [OF a this] obtain m where
    "table_at kMonitorModeTable mode_id = Inr m"
    by blast
  then show "0 \<le> mode_id \<and> mode_id < kNumMonitorModes"
    by (simp add: table_at_monitor_mode [symmetric])
next
  assume r: "0 \<le> mode_id \<and> mode_id < kNumMonitorModes"
  then have "\<exists>m. table_at kMonitorModeTable mode_id = Inr m"
    by (simp add: table_at_monitor_mode)
  then obtain m where m: "table_at kMonitorModeTable mode_id = Inr m" ..
  show "\<exists>st'. SetMonitorMode mode_id st = Inr st'"
    by (simp add: SetMonitorMode_def Let_def m)
qed

lemma prev_num_channels_positive:
  fixes st :: "('w::len word, 'd) Streams"
  shows "(onReset Reset SetSampleRate sample_rate st = Inr st1 \<longrightarrow> prev_num_channels st1 = 1)
    \<and> (process Process h frame0 st = Inr st2 \<longrightarrow> 1 \<le> prev_num_channels st2)
    \<and> (apply_mutation m st = Inr st3 \<longrightarrow> prev_num_channels st3 = prev_num_channels st)
    \<and> prev_num_channels (onRandomize Randomize st) = prev_num_channels st
    \<and> prev_num_channels (onSampleRateChange SetSampleRate sample_rate st) = prev_num_channels st"
proof (intro conjI impI)
  assume "onReset Reset SetSampleRate sample_rate st = Inr st1"
  then show "prev_num_channels st1 = 1"
    using onReset_Inr [of Reset SetSampleRate sample_rate st] by auto
next
  assume "process Process h frame0 st = Inr st2"
  from process_lights [OF this] show "1 \<le> prev_num_channels st2"
    using num_channels_ge_1 [of h] by simp
next
  assume a: "apply_mutation m st = Inr st3"
  show "prev_num_channels st3 = prev_num_channels st"
  proof (cases m)
    case DoToggleLink
    with a show ?thesis by (auto simp: ToggleLink_def Let_def apply_to_engines_rest)
  next
    case (DoSetChannelMode channel mode_id)
    with a show ?thesis
      by (auto simp: SetChannelMode_def Let_def apply_to_engines_rest split: sum.splits)
  next
    case (DoSetMonitorMode mode_id)
    with a show ?thesis
      by (auto simp: SetMonitorMode_def Let_def apply_to_engines_rest split: sum.splits)
  next
    case (DoDataFromJson root_j)
    with a show ?thesis by (auto simp: dataFromJson_def apply_to_engines_rest)
  qed
next
  show "prev_num_channels (onRandomize Randomize st) = prev_num_channels st"
    by (simp add: onRandomize_def apply_to_engines_rest)
next
  show "prev_num_channels (onSampleRateChange SetSampleRate sample_rate st) = prev_num_channels st"
    by (simp add: onSampleRateChange_def apply_to_engines_rest)
qed

text \<open>
  C9. With \<open>0 \<le> mode_id < 10\<close> and \<open>channel\<close> 0 or 1, \<open>SetChannelMode\<close> stays inside
  \<open>kChannelModeTable\<close>, \<open>settings.function\<close> and \<open>settings.alternate\<close>; with \<open>0 \<le> mode_id < 4\<close>,
  \<open>SetMonitorMode\<close> stays inside \<open>kMonitorModeTable\<close>; with a voice count of at most 16 (and
  \<open>prev_num_channels_\<close> at least 1, as \<open>onReset\<close> and \<open>process\<close> leave it), \<open>process\<close> stays inside
  \<open>engine_\<close> and \<open>brightness_\<close>. Nothing checks an index: outside these ranges the same
  accesses are made, outside the arrays.
\<close>

theorem accesses_in_bounds:
  fixes st :: "('w::len word, 'd) Streams"
  shows "(0 \<le> mode_id \<and> mode_id < kNumChannelModes \<and> (channel = 0 \<or> channel = 1) \<longrightarrow>
        (\<exists>st'. SetChannelMode channel mode_id st = Inr st'))
    \<and> (\<not> (0 \<le> mode_id \<and> mode_id < kNumChannelModes \<and> (channel = 0 \<or> channel = 1)) \<longrightarrow>
        SetChannelMode channel mode_id st = Inl OutOfBounds)
    \<and> (0 \<le> monitor_id \<and> monitor_id < kNumMonitorModes \<longrightarrow>
        (\<exists>st'. SetMonitorMode monitor_id st = Inr st'))
    \<and> (\<not> (0 \<le> monitor_id \<and> monitor_id < kNumMonitorModes) \<longrightarrow>
        SetMonitorMode monitor_id st = Inl OutOfBounds)
    \<and> (num_channels h \<le> int kNumEngines \<and> 1 \<le> prev_num_channels st \<longrightarrow>
        (\<exists>st'. process Process h frame0 st = Inr st'))
    \<and> (\<not> num_channels h \<le> int kNumEngines \<longrightarrow> process Process h frame0 st = Inl OutOfBounds)"
proof (intro conjI impI)
  assume "0 \<le> mode_id \<and> mode_id < kNumChannelModes \<and> (channel = 0 \<or> channel = 1)"
  then show "\<exists>st'. SetChannelMode channel mode_id st = Inr st'"
    by (simp only: SetChannelMode_Inr_iff)
next
  assume "\<not> (0 \<le> mode_id \<and> mode_id < kNumChannelModes \<and> (channel = 0 \<or> channel = 1))"
  then show "SetChannelMode channel mode_id st = Inl OutOfBounds"
    by (simp only: error_is_OutOfBounds SetChannelMode_Inr_iff not_False_eq_True)
next
  assume "0 \<le> monitor_id \<and> monitor_id < kNumMonitorModes"
  then show "\<exists>st'. SetMonitorMode monitor_id st = Inr st'"
    by (simp only: SetMonitorMode_Inr_iff)
next
  assume "\<not> (0 \<le> monitor_id \<and> monitor_id < kNumMonitorModes)"
  then show "SetMonitorMode monitor_id st = Inl OutOfBounds"
    by (simp only: error_is_OutOfBounds SetMonitorMode_Inr_iff not_False_eq_True)
next
  assume "num_channels h \<le> int kNumEngines \<and> 1 \<le> prev_num_channels st"
  then have "num_channels h \<le> int kNumEngines" "0 \<le> prev_num_channels st" by simp_all
  then show "\<exists>st'. process Process h frame0 st = Inr st'"
    by (rule process_Inr)
next
  assume n: "\<not> num_channels h \<le> int kNumEngines"
  have "\<nexists>st'. process Process h frame0 st = Inr st'"
  proof
    assume "\<exists>st'. process Process h frame0 st = Inr st'"
    then obtain st' where "process Process h frame0 st = Inr st'" by blast
    from process_lights [OF this] n show False by simp
  qed
  then show "process Process h frame0 st = Inl OutOfBounds"
    by (simp only: error_is_OutOfBounds not_False_eq_True)
qed

theorem accesses_in_bounds_witness:
  "(0::int) \<le> 9 \<and> 9 < kNumChannelModes \<and> (0::int) \<le> 3 \<and> 3 < kNumMonitorModes
    \<and> num_channels example_host \<le> int kNumEngines \<and> 1 \<le> prev_num_channels example_module
    \<and> (\<exists>st'. SetChannelMode 1 9 example_module = Inr st')
    \<and> (\<exists>st'. SetMonitorMode 3 example_module = Inr st')
    \<and> (\<exists>st'. process lit_when_excited example_host example_frame example_module = Inr st')
    \<and> SetChannelMode 2 10 example_module = Inl OutOfBounds
    \<and> SetMonitorMode 4 example_module = Inl OutOfBounds
    \<and> \<not> num_channels host_17 \<le> int kNumEngines
    \<and> process lit_when_excited host_17 example_frame example_module = Inl OutOfBounds"
proof -
  note ok = accesses_in_bounds [where mode_id = 9 and channel = 1 and monitor_id = 3
      and h = example_host and st = example_module and Process = lit_when_excited
      and ?frame0.0 = example_frame]
  note out = accesses_in_bounds [where mode_id = 10 and channel = 2 and monitor_id = 4
      and h = host_17 and st = example_module and Process = lit_when_excited
      and ?frame0.0 = example_frame]
  have a: "0 \<le> (9::int) \<and> 9 < kNumChannelModes \<and> ((1::int) = 0 \<or> (1::int) = 1)"
    by (simp add: kNumChannelModes_def)
  have b: "0 \<le> (3::int) \<and> 3 < kNumMonitorModes"
    by (simp add: kNumMonitorModes_def)
  have c: "num_channels example_host \<le> int kNumEngines \<and> 1 \<le> prev_num_channels example_module"
    by (simp add: example_host_channels kNumEngines_def example_module_def)
  have a': "\<not> (0 \<le> (10::int) \<and> 10 < kNumChannelModes \<and> ((2::int) = 0 \<or> (2::int) = 1))"
    by (simp add: kNumChannelModes_def)
  have b': "\<not> (0 \<le> (4::int) \<and> 4 < kNumMonitorModes)"
    by (simp add: kNumMonitorModes_def)
  have c': "\<not> num_channels host_17 \<le> int kNumEngines"
    by (simp add: num_channels_def host_17_def kNumEngines_def)
  note r1 = ok [THEN conjunct1, THEN mp, OF a]
  note r2 = ok [THEN conjunct2, THEN conjunct2, THEN conjunct1, THEN mp, OF b]
  note r3 = ok [THEN conjunct2, THEN conjunct2, THEN conjunct2, THEN conjunct2, THEN conjunct1, THEN mp, OF c]
  note r4 = out [THEN conjunct2, THEN conjunct1, THEN mp, OF a']
  note r5 = out [THEN conjunct2, THEN conjunct2, THEN conjunct2, THEN conjunct1, THEN mp, OF b']
  note r6 = out [THEN conjunct2, THEN conjunct2, THEN conjunct2, THEN conjunct2, THEN conjunct2, THEN mp, OF c']
  from a b c c' r1 r2 r3 r4 r5 r6 show ?thesis by simp
qed

text \<open>
  C10. \<open>onReset\<close> returns with \<open>prev_num_channels_\<close> equal to 1 and every entry of the
  16-by-16 table \<open>brightness_\<close> equal to 0. Its loop writes \<open>brightness_[c][i]\<close> with the engine
  index first, against the declaration \<open>brightness_[NUM_LIGHTS][kNumEngines]\<close>; every such
  write is inside the table, and every entry is reached, because both sizes are 16.
\<close>

theorem onReset_clears_brightness:
  "\<exists>st'. onReset Reset SetSampleRate sample_rate st = Inr st'
    \<and> prev_num_channels st' = 1
    \<and> (\<forall>i<NUM_LIGHTS. \<forall>c<kNumEngines. brightness st' i c = 0)"
proof -
  from onReset_Inr [of Reset SetSampleRate sample_rate st] obtain st' where
    r: "onReset Reset SetSampleRate sample_rate st = Inr st'"
    and p: "prev_num_channels st' = 1"
    and b: "brightness st' = (\<lambda>i c. if i < kNumEngines \<and> c < NUM_LIGHTS then 0 else brightness st i c)"
    by blast
  have "\<forall>i<NUM_LIGHTS. \<forall>c<kNumEngines. brightness st' i c = 0"
    unfolding b by (simp add: NUM_LIGHTS_def kNumEngines_def)
  with r p show ?thesis by blast
qed

theorem onReset_clears_brightness_witness:
  "brightness (example_module\<lparr>brightness := (\<lambda>i c. 1), prev_num_channels := 7\<rparr>) 15 15 = 1
    \<and> (15::nat) < NUM_LIGHTS \<and> (15::nat) < kNumEngines
    \<and> (\<exists>st'. onReset (\<lambda>e. e) (\<lambda>r e. e) 44100
            (example_module\<lparr>brightness := (\<lambda>i c. 1), prev_num_channels := 7\<rparr>) = Inr st'
          \<and> prev_num_channels st' = 1
          \<and> brightness st' 15 15 = 0)"
proof -
  have a: "(15::nat) < NUM_LIGHTS" "(15::nat) < kNumEngines"
    by (simp_all add: NUM_LIGHTS_def kNumEngines_def)
  from onReset_clears_brightness [of "\<lambda>e. e" "\<lambda>r e. e" 44100
      "example_module\<lparr>brightness := (\<lambda>i c. 1), prev_num_channels := 7\<rparr>"]
  obtain st' where
    r: "onReset (\<lambda>e. e) (\<lambda>r e. e) 44100
            (example_module\<lparr>brightness := (\<lambda>i c. 1), prev_num_channels := 7\<rparr>) = Inr st'"
    and p: "prev_num_channels st' = 1"
    and b: "\<forall>i<NUM_LIGHTS. \<forall>c<kNumEngines. brightness st' i c = 0"
    by blast
  from b a have "brightness st' 15 15 = 0" by blast
  with r p have "\<exists>st'. onReset (\<lambda>e. e) (\<lambda>r e. e) 44100
            (example_module\<lparr>brightness := (\<lambda>i c. 1), prev_num_channels := 7\<rparr>) = Inr st'
          \<and> prev_num_channels st' = 1
          \<and> brightness st' 15 15 = 0"
    by blast
  moreover have "brightness (example_module\<lparr>brightness := (\<lambda>i c. 1), prev_num_channels := 7\<rparr>) 15 15 = 1"
    by simp
  ultimately show ?thesis using a by blast
qed

end
